theory Spec2Isabelle
  imports Main "HOL-Library.Word"
begin

unbundle bit_operations_syntax

section \<open>GPK specific operations for PKCS15 initialization (pkcs15-gpk.c)\<close>

text \<open>
  A shallow embedding of \<^verbatim>\<open>src/pkcs15init/pkcs15-gpk.c\<close>.  C's \<^verbatim>\<open>unsigned char\<close> is an
  8-bit word and \<^verbatim>\<open>unsigned int\<close> a 32-bit word, so that \<open>+\<close> wraps around as in C.
  Byte buffers are lists of bytes.
\<close>

type_synonym u8 = "8 word"
type_synonym u32 = "32 word"

subsection \<open>Return codes\<close>

text \<open>
  The C functions return an \<^verbatim>\<open>int\<close>: negative values are \<^verbatim>\<open>SC_ERROR_*\<close> codes, values
  \<open>\<ge> 0\<close> mean success (for the read operations: the number of bytes).  A result is
  \<open>Inl\<close> of a failure or \<open>Inr\<close> of the non-negative return value.  Besides the error codes
  the file uses, \<open>SC_ERROR_OTHER\<close> stands for any other negative code a callee may
  return, \<open>ASSERTION_FAILED\<close> for a failed \<^verbatim>\<open>assert\<close> (the process aborts) and
  \<open>UNDEFINED_BEHAVIOUR\<close> for a NULL dereference or a write past the end of a local array.
\<close>

datatype failure =
    SC_ERROR_INVALID_ARGUMENTS
  | SC_ERROR_NOT_SUPPORTED
  | SC_ERROR_OBJECT_NOT_VALID
  | SC_ERROR_SECURITY_STATUS_NOT_SATISFIED
  | SC_ERROR_TOO_MANY_OBJECTS
  | SC_ERROR_BUFFER_TOO_SMALL
  | SC_ERROR_FILE_NOT_FOUND
  | SC_ERROR_OTHER int
  | ASSERTION_FAILED
  | UNDEFINED_BEHAVIOUR

type_synonym 'a result = "failure + 'a"

subsection \<open>Key components\<close>

text \<open>
  \<^verbatim>\<open>struct pkcomp\<close> and \<^verbatim>\<open>struct pkpart\<close>.  The array \<^verbatim>\<open>components[7]\<close> together with
  \<^verbatim>\<open>count\<close> is the list of the first \<^verbatim>\<open>count\<close> entries.
\<close>

record pkcomp =
  tag :: u8
  data :: "u8 list"
  size_comp :: u32

record pkpart =
  components :: "pkcomp list"
  size_part :: u32

record pkdata =
  algo :: u32
  usage :: u32
  public_part :: pkpart
  private_part :: pkpart
  bits :: nat
  bytes :: nat

subsection \<open>Length of the public and of the private part\<close>

text \<open>
  \<^verbatim>\<open>gpk_compute_publen\<close>: \<^verbatim>\<open>publen = 8; for (...) publen += 2 + size;\<close> then
  \<^verbatim>\<open>part->size = (publen + 3) & ~3UL\<close>.
\<close>

fun publen_loop :: "pkcomp list \<Rightarrow> u32 \<Rightarrow> u32" where
  "publen_loop [] publen = publen"
| "publen_loop (c # cs) publen = publen_loop cs (publen + (2 + size_comp c))"

definition gpk_compute_publen :: "pkpart \<Rightarrow> pkpart" where
  "gpk_compute_publen part =
     part\<lparr>size_part := (publen_loop (components part) 8 + 3) AND NOT 3\<rparr>"

text \<open>
  \<^verbatim>\<open>gpk_compute_privlen\<close>: \<^verbatim>\<open>privlen = 8; for (...) privlen += (3 + size + 7) & ~7UL;\<close>
\<close>

fun privlen_loop :: "pkcomp list \<Rightarrow> u32 \<Rightarrow> u32" where
  "privlen_loop [] privlen = privlen"
| "privlen_loop (c # cs) privlen =
     privlen_loop cs (privlen + ((3 + size_comp c + 7) AND NOT 7))"

definition gpk_compute_privlen :: "pkpart \<Rightarrow> pkpart" where
  "gpk_compute_privlen part = part\<lparr>size_part := privlen_loop (components part) 8\<rparr>"

text \<open>The spec's rounding, on natural numbers.\<close>

definition round_up :: "nat \<Rightarrow> nat \<Rightarrow> nat" where
  "round_up n k = ((n + k - 1) div k) * k"

fun publen_sum :: "pkcomp list \<Rightarrow> nat" where
  "publen_sum [] = 0"
| "publen_sum (c # cs) = (2 + unat (size_comp c)) + publen_sum cs"

fun privlen_sum :: "pkcomp list \<Rightarrow> nat" where
  "privlen_sum [] = 0"
| "privlen_sum (c # cs) = round_up (3 + unat (size_comp c)) 8 + privlen_sum cs"

text \<open>
  The key parts of the program: \<^verbatim>\<open>components[7]\<close> holds at most seven components, and
  a component that \<^verbatim>\<open>gpk_add_bignum\<close> or \<^verbatim>\<open>gpk_encode_rsa_key\<close> builds has at most 257
  bytes (the tag and a number that passed the \<^verbatim>\<open>assert\<close>s of \<^verbatim>\<open>gpk_bn2bin\<close>).
\<close>

definition bounded_part :: "pkpart \<Rightarrow> bool" where
  "bounded_part part =
     (length (components part) \<le> 7
      \<and> list_all (\<lambda>c. unat (size_comp c) \<le> 257) (components part))"

subsection \<open>BIGNUMs\<close>

text \<open>
  The OpenSSL library is an external collaborator; only the magnitude of a BIGNUM and
  its byte length are consumed.  A BIGNUM is an integer; a pointer to one that may be
  NULL is an \<open>option\<close>.  \<open>BN_bn2bin\<close> yields the big-endian magnitude without leading
  zero bytes, \<open>BN_num_bytes\<close> its length, \<open>BN_num_bits\<close> the number of significant bits.
  Both lengths are C \<^verbatim>\<open>int\<close>s that the code stores in \<^verbatim>\<open>unsigned int\<close>s unchanged; they
  are natural numbers here.
\<close>

type_synonym BIGNUM = int

fun bn_magnitude :: "nat \<Rightarrow> u8 list" where
  "bn_magnitude n = (if n = 0 then [] else bn_magnitude (n div 256) @ [of_nat (n mod 256)])"

declare bn_magnitude.simps [simp del]

fun bit_length :: "nat \<Rightarrow> nat" where
  "bit_length n = (if n = 0 then 0 else Suc (bit_length (n div 2)))"

declare bit_length.simps [simp del]

definition BN_bn2bin :: "BIGNUM \<Rightarrow> u8 list" where
  "BN_bn2bin bn = bn_magnitude (nat \<bar>bn\<bar>)"

definition BN_num_bytes :: "BIGNUM \<Rightarrow> nat" where
  "BN_num_bytes bn = length (BN_bn2bin bn)"

definition BN_num_bits :: "BIGNUM \<Rightarrow> nat" where
  "BN_num_bits bn = bit_length (nat \<bar>bn\<bar>)"

definition BN_is_word :: "BIGNUM \<Rightarrow> nat \<Rightarrow> bool" where
  "BN_is_word bn w = (bn = int w)"

definition RSA_F4 :: nat where
  "RSA_F4 = 65537"

record RSA =
  rsa_n :: "BIGNUM option"
  rsa_e :: "BIGNUM option"
  rsa_d :: "BIGNUM option"
  rsa_p :: "BIGNUM option"
  rsa_q :: "BIGNUM option"
  rsa_dmp1 :: "BIGNUM option"
  rsa_dmq1 :: "BIGNUM option"
  rsa_iqmp :: "BIGNUM option"

record DSA =
  dsa_p :: "BIGNUM option"
  dsa_q :: "BIGNUM option"
  dsa_g :: "BIGNUM option"
  dsa_pub_key :: "BIGNUM option"
  dsa_priv_key :: "BIGNUM option"

text \<open>
  Modelled from the spec: \<^verbatim>\<open>opensc.h\<close> is not under \<^verbatim>\<open>src/\<close>.  The two algorithm
  numbers that \<^verbatim>\<open>gpk_pkfile_keyalgo\<close> tells apart.
\<close>

definition SC_ALGORITHM_RSA :: u32 where
  "SC_ALGORITHM_RSA = 0"

definition SC_ALGORITHM_DSA :: u32 where
  "SC_ALGORITHM_DSA = 1"

subsection \<open>Encoding a key\<close>

text \<open>
  \<^verbatim>\<open>gpk_bn2bin(bn, dest, size)\<close>: the two \<^verbatim>\<open>assert\<close>s, then the magnitude in reverse
  (little-endian) order, zero padded to \<open>sz\<close> bytes.  The result is \<^verbatim>\<open>dest[0..size)\<close>.
\<close>

definition gpk_bn2bin :: "BIGNUM \<Rightarrow> nat \<Rightarrow> u8 list result" where
  "gpk_bn2bin bn sz =
     (if \<not> BN_num_bytes bn \<le> 256 then Inl ASSERTION_FAILED
      else let temp = BN_bn2bin bn; len = length temp in
        if \<not> len \<le> sz then Inl ASSERTION_FAILED
        else Inr (rev temp @ replicate (sz - len) 0))"

text \<open>
  \<^verbatim>\<open>gpk_add_bignum(part, tag, bn, size)\<close> fills the next free slot of
  \<^verbatim>\<open>components[7]\<close>; writing an eighth component would run past the array.
\<close>

definition gpk_add_bignum :: "pkpart \<Rightarrow> u8 \<Rightarrow> BIGNUM \<Rightarrow> nat \<Rightarrow> pkpart result" where
  "gpk_add_bignum part tg bn size0 =
     (let sz = (if size0 = 0 then BN_num_bytes bn else size0) in
      if 7 \<le> length (components part) then Inl UNDEFINED_BEHAVIOUR
      else case gpk_bn2bin bn sz of
          Inl err \<Rightarrow> Inl err
        | Inr num \<Rightarrow>
            Inr (part\<lparr>components := components part @
                   [\<lparr>tag = tg, data = tg # num, size_comp = of_nat (sz + 1)\<rparr>]\<rparr>))"

definition empty_part :: pkpart where
  "empty_part = \<lparr>components = [], size_part = 0\<rparr>"

record sc_pkcs15_prkey_info =
  usage_info :: u32

text \<open>
  The five CRT numbers in one record: \<^verbatim>\<open>crtbuf\<close> is the tag 0x05 followed by \<open>p\<close>,
  \<open>q\<close>, \<open>iqmp\<close>, \<open>dmp1\<close> and \<open>dmq1\<close>, each \<open>K\<close> bytes wide.
\<close>

definition gpk_crtbuf ::
  "nat \<Rightarrow> BIGNUM \<Rightarrow> BIGNUM \<Rightarrow> BIGNUM \<Rightarrow> BIGNUM \<Rightarrow> BIGNUM \<Rightarrow> u8 list result" where
  "gpk_crtbuf K p q iqmp dmp1 dmq1 =
     (case gpk_bn2bin p K of Inl err \<Rightarrow> Inl err | Inr b1 \<Rightarrow>
      case gpk_bn2bin q K of Inl err \<Rightarrow> Inl err | Inr b2 \<Rightarrow>
      case gpk_bn2bin iqmp K of Inl err \<Rightarrow> Inl err | Inr b3 \<Rightarrow>
      case gpk_bn2bin dmp1 K of Inl err \<Rightarrow> Inl err | Inr b4 \<Rightarrow>
      case gpk_bn2bin dmq1 K of Inl err \<Rightarrow> Inl err | Inr b5 \<Rightarrow>
        Inr (0x05 # b1 @ b2 @ b3 @ b4 @ b5))"

text \<open>The private elements of \<^verbatim>\<open>gpk_encode_rsa_key\<close>, for a modulus of \<open>nbytes\<close> bytes.\<close>

definition gpk_encode_rsa_private :: "RSA \<Rightarrow> nat \<Rightarrow> pkpart result" where
  "gpk_encode_rsa_private rsa nbytes =
     (if rsa_p rsa = None \<or> rsa_q rsa = None \<or> rsa_dmp1 rsa = None
         \<or> rsa_dmq1 rsa = None \<or> rsa_iqmp rsa = None
      then (case rsa_d rsa of
              None \<Rightarrow> Inl SC_ERROR_INVALID_ARGUMENTS
            | Some d \<Rightarrow> gpk_add_bignum empty_part 0x04 d 0)
      else if 5 * (nbytes div 2) < 256
      then (let K = nbytes div 2 in
            case gpk_crtbuf K (the (rsa_p rsa)) (the (rsa_q rsa)) (the (rsa_iqmp rsa))
                   (the (rsa_dmp1 rsa)) (the (rsa_dmq1 rsa)) of
              Inl err \<Rightarrow> Inl err
            | Inr crtbuf \<Rightarrow>
                Inr (empty_part\<lparr>components :=
                  [\<lparr>tag = 0x05, data = crtbuf, size_comp = of_nat (5 * K + 1)\<rparr>]\<rparr>))
      else (case gpk_add_bignum empty_part 0x51 (the (rsa_p rsa)) (nbytes div 2) of
              Inl err \<Rightarrow> Inl err | Inr p1 \<Rightarrow>
            case gpk_add_bignum p1 0x52 (the (rsa_q rsa)) (nbytes div 2) of
              Inl err \<Rightarrow> Inl err | Inr p2 \<Rightarrow>
            case gpk_add_bignum p2 0x53 (the (rsa_iqmp rsa)) (nbytes div 2) of
              Inl err \<Rightarrow> Inl err | Inr p3 \<Rightarrow>
            case gpk_add_bignum p3 0x54 (the (rsa_dmp1 rsa)) (nbytes div 2) of
              Inl err \<Rightarrow> Inl err | Inr p4 \<Rightarrow>
            gpk_add_bignum p4 0x55 (the (rsa_dmq1 rsa)) (nbytes div 2)))"

definition gpk_encode_rsa_key :: "RSA \<Rightarrow> sc_pkcs15_prkey_info \<Rightarrow> pkdata result" where
  "gpk_encode_rsa_key rsa info =
     (case rsa_n rsa of None \<Rightarrow> Inl SC_ERROR_INVALID_ARGUMENTS | Some n \<Rightarrow>
      case rsa_e rsa of None \<Rightarrow> Inl SC_ERROR_INVALID_ARGUMENTS | Some e \<Rightarrow>
      if \<not> BN_is_word e RSA_F4 then Inl SC_ERROR_INVALID_ARGUMENTS
      else
        case gpk_add_bignum empty_part 0x01 n 0 of Inl err \<Rightarrow> Inl err | Inr pub1 \<Rightarrow>
        case gpk_add_bignum pub1 0x07 e 0 of Inl err \<Rightarrow> Inl err | Inr pub2 \<Rightarrow>
        case gpk_encode_rsa_private rsa (BN_num_bytes n) of Inl err \<Rightarrow> Inl err | Inr priv \<Rightarrow>
          Inr \<lparr>algo = SC_ALGORITHM_RSA, usage = usage_info info,
               public_part = pub2, private_part = priv,
               bits = BN_num_bits n, bytes = BN_num_bytes n\<rparr>)"

text \<open>
  \<^verbatim>\<open>gpk_encode_dsa_key\<close>.  The source sets \<^verbatim>\<open>p->algo = SC_ALGORITHM_RSA\<close> here.
\<close>

definition gpk_encode_dsa_key :: "DSA \<Rightarrow> sc_pkcs15_prkey_info \<Rightarrow> pkdata result" where
  "gpk_encode_dsa_key dsa info =
     (if dsa_p dsa = None \<or> dsa_q dsa = None \<or> dsa_g dsa = None
         \<or> dsa_pub_key dsa = None \<or> dsa_priv_key dsa = None
      then Inl SC_ERROR_INVALID_ARGUMENTS
      else
        case (let raw = BN_num_bytes (the (dsa_p dsa)) in
              if raw \<le> 64 then Inr (512, 64)
              else if raw \<le> 128 then Inr (1024, 128)
              else Inl SC_ERROR_INVALID_ARGUMENTS) of
          Inl err \<Rightarrow> Inl err
        | Inr (nbits, nbytes) \<Rightarrow>
          case gpk_add_bignum empty_part 0x09 (the (dsa_p dsa)) 0 of
            Inl err \<Rightarrow> Inl err | Inr pub1 \<Rightarrow>
          case gpk_add_bignum pub1 0x0a (the (dsa_q dsa)) 0 of
            Inl err \<Rightarrow> Inl err | Inr pub2 \<Rightarrow>
          case gpk_add_bignum pub2 0x0b (the (dsa_g dsa)) 0 of
            Inl err \<Rightarrow> Inl err | Inr pub3 \<Rightarrow>
          case gpk_add_bignum pub3 0x0c (the (dsa_pub_key dsa)) 0 of
            Inl err \<Rightarrow> Inl err | Inr pub4 \<Rightarrow>
          case gpk_add_bignum empty_part 0x0d (the (dsa_priv_key dsa)) 0 of
            Inl err \<Rightarrow> Inl err | Inr priv \<Rightarrow>
            Inr \<lparr>algo = SC_ALGORITHM_RSA, usage = usage_info info,
                 public_part = pub4, private_part = priv,
                 bits = nbits, bytes = nbytes\<rparr>)"

subsection \<open>Files, access conditions and the profile\<close>

text \<open>
  Modelled from the spec: \<^verbatim>\<open>opensc.h\<close> and \<^verbatim>\<open>profile.h\<close> are not under \<^verbatim>\<open>src/\<close>.  A card
  file carries a path, a size and, per operation, a list of ACL entries (the linked list
  that \<^verbatim>\<open>sc_file_get_acl_entry\<close> returns; the empty list is the NULL pointer).  The
  profile is read through \<^verbatim>\<open>sc_profile_get_path\<close> (for the name "pinfile") and
  \<^verbatim>\<open>sc_profile_get_secret\<close> (return code and key); each field below is the outcome of
  that call.
\<close>

datatype ac_method =
    SC_AC_NONE | SC_AC_CHV | SC_AC_TERM | SC_AC_PRO | SC_AC_AUT
  | SC_AC_SYMBOLIC | SC_AC_UNKNOWN | SC_AC_NEVER

datatype ac_op =
    SC_AC_OP_SELECT | SC_AC_OP_LOCK | SC_AC_OP_DELETE | SC_AC_OP_CREATE
  | SC_AC_OP_REHABILITATE | SC_AC_OP_INVALIDATE | SC_AC_OP_LIST_FILES
  | SC_AC_OP_CRYPTO | SC_AC_OP_READ | SC_AC_OP_UPDATE | SC_AC_OP_WRITE

record sc_acl_entry =
  method_acl :: ac_method
  key_ref :: u32

record sc_file =
  path :: "u8 list"
  size_file :: nat
  acl :: "ac_op \<Rightarrow> sc_acl_entry list"

record sc_profile =
  pin_attempts :: u32
  puk_attempts :: u32
  pinfile_path :: "u8 list option"
  secret :: "ac_method \<Rightarrow> nat \<Rightarrow> (nat \<times> u8 list) result"

definition sc_file_get_acl_entry :: "sc_file \<Rightarrow> ac_op \<Rightarrow> sc_acl_entry list" where
  "sc_file_get_acl_entry file operation = acl file operation"

subsection \<open>The card\<close>

text \<open>
  Modelled from the spec: the card transport (\<^verbatim>\<open>sc_select_file\<close>, \<^verbatim>\<open>sc_read_record\<close>,
  \<^verbatim>\<open>sc_card_ctl\<close>, \<^verbatim>\<open>sc_pkcs15init_authenticate\<close> and the like) is an external
  collaborator and not under \<^verbatim>\<open>src/\<close>.  Every operation the driver issues is
  an event; the card answers each with a return code, and \<^verbatim>\<open>sc_select_file\<close> and
  \<^verbatim>\<open>sc_read_record\<close> also with data.  The answers are arbitrary functions of the
  history and of the operation, and the log keeps every operation with its return code,
  in order.  Diagnostics (\<^verbatim>\<open>error\<close>, \<^verbatim>\<open>printf\<close>, \<^verbatim>\<open>log_errors\<close>) never change control flow and
  are left out.
\<close>

datatype event =
    SelectFile "u8 list"
  | CreateFile sc_file
  | Authenticate sc_file ac_op
  | ReadRecord nat
  | UpdateRecord nat "u8 list"
  | AppendRecord "u8 list"
  | WriteBinary nat "u8 list"
  | Verify ac_method nat "u8 list"
  | ChangeReferenceData ac_method u32 "u8 list" "u8 list option" nat
  | CardCtl_ERASE_CARD
  | CardCtl_GPK_LOCK sc_file ac_op
  | CardCtl_GPK_PKINIT sc_file u32
  | CardCtl_GPK_PKLOAD sc_file "u8 list" u32 nat

type_synonym trace = "(event \<times> nat result) list"

record card =
  reply :: "trace \<Rightarrow> event \<Rightarrow> nat result"
  select_reply :: "trace \<Rightarrow> u8 list \<Rightarrow> sc_file result"
  read_reply :: "trace \<Rightarrow> nat \<Rightarrow> u8 list result"
  log :: trace

definition card_op :: "card \<Rightarrow> event \<Rightarrow> nat result \<times> card" where
  "card_op c ev = (let r = reply c (log c) ev in (r, c\<lparr>log := log c @ [(ev, r)]\<rparr>))"

definition sc_select_file :: "card \<Rightarrow> u8 list \<Rightarrow> sc_file result \<times> card" where
  "sc_select_file c p =
     (case select_reply c (log c) p of
        Inl err \<Rightarrow> (Inl err, c\<lparr>log := log c @ [(SelectFile p, Inl err)]\<rparr>)
      | Inr found \<Rightarrow> (Inr found, c\<lparr>log := log c @ [(SelectFile p, Inr 0)]\<rparr>))"

text \<open>\<^verbatim>\<open>sc_read_record(card, n, buffer, sizeof(buffer), ...)\<close> with a buffer of 256 bytes.\<close>

definition sc_read_record :: "card \<Rightarrow> nat \<Rightarrow> u8 list result \<times> card" where
  "sc_read_record c n =
     (case read_reply c (log c) n of
        Inl err \<Rightarrow> (Inl err, c\<lparr>log := log c @ [(ReadRecord n, Inl err)]\<rparr>)
      | Inr buf \<Rightarrow>
          (Inr (take 256 buf), c\<lparr>log := log c @ [(ReadRecord n, Inr (length (take 256 buf)))]\<rparr>))"

definition sc_update_record :: "card \<Rightarrow> nat \<Rightarrow> u8 list \<Rightarrow> nat result \<times> card" where
  "sc_update_record c n buf = card_op c (UpdateRecord n buf)"

definition sc_append_record :: "card \<Rightarrow> u8 list \<Rightarrow> nat result \<times> card" where
  "sc_append_record c buf = card_op c (AppendRecord buf)"

definition sc_write_binary :: "card \<Rightarrow> nat \<Rightarrow> u8 list \<Rightarrow> nat result \<times> card" where
  "sc_write_binary c idx buf = card_op c (WriteBinary idx buf)"

definition sc_verify :: "card \<Rightarrow> ac_method \<Rightarrow> nat \<Rightarrow> u8 list \<Rightarrow> nat result \<times> card" where
  "sc_verify c type ref buf = card_op c (Verify type ref buf)"

definition sc_change_reference_data ::
  "card \<Rightarrow> ac_method \<Rightarrow> u32 \<Rightarrow> u8 list \<Rightarrow> u8 list option \<Rightarrow> nat \<Rightarrow> nat result \<times> card" where
  "sc_change_reference_data c type ref old new newlen =
     card_op c (ChangeReferenceData type ref old new newlen)"

definition sc_pkcs15init_create_file :: "card \<Rightarrow> sc_file \<Rightarrow> nat result \<times> card" where
  "sc_pkcs15init_create_file c file = card_op c (CreateFile file)"

definition sc_pkcs15init_authenticate :: "card \<Rightarrow> sc_file \<Rightarrow> ac_op \<Rightarrow> nat result \<times> card" where
  "sc_pkcs15init_authenticate c file operation = card_op c (Authenticate file operation)"

definition is_ok :: "'a result \<Rightarrow> bool" where
  "is_ok r = (case r of Inl _ \<Rightarrow> False | Inr _ \<Rightarrow> True)"

subsection \<open>The key file\<close>

text \<open>\<^verbatim>\<open>gpk_erase_card\<close> and \<^verbatim>\<open>gpk_lock\<close>.\<close>

definition gpk_erase_card :: "card \<Rightarrow> nat result \<times> card" where
  "gpk_erase_card c = card_op c CardCtl_ERASE_CARD"

definition gpk_lock :: "card \<Rightarrow> sc_file \<Rightarrow> ac_op \<Rightarrow> nat result \<times> card" where
  "gpk_lock c file operation = card_op c (CardCtl_GPK_LOCK file operation)"

text \<open>
  \<^verbatim>\<open>gpk_pkfile_create\<close>: select the file; create and select it again when it was not
  found; then authenticate for UPDATE.
\<close>

definition gpk_pkfile_create :: "card \<Rightarrow> sc_file \<Rightarrow> nat result \<times> card" where
  "gpk_pkfile_create c file =
     (case (case sc_select_file c (path file) of
              (Inl SC_ERROR_FILE_NOT_FOUND, c1) \<Rightarrow>
                (case sc_pkcs15init_create_file c1 file of
                   (Inl err, c2) \<Rightarrow> (Inl err, c2)
                 | (Inr _, c2) \<Rightarrow> sc_select_file c2 (path file))
            | other \<Rightarrow> other) of
        (Inl err, c3) \<Rightarrow> (Inl err, c3)
      | (Inr _, c3) \<Rightarrow> sc_pkcs15init_authenticate c3 file SC_AC_OP_UPDATE)"

definition gpk_pkfile_keybits :: "nat \<Rightarrow> u8 result" where
  "gpk_pkfile_keybits nbits =
     (if nbits = 512 then Inr 0x00
      else if nbits = 768 then Inr 0x10
      else if nbits = 1024 then Inr 0x11
      else Inl SC_ERROR_NOT_SUPPORTED)"

definition gpk_pkfile_keyalgo :: "u32 \<Rightarrow> u8 result" where
  "gpk_pkfile_keyalgo a =
     (if a = SC_ALGORITHM_RSA then Inr 0x00
      else if a = SC_ALGORITHM_DSA then Inr 0x01
      else Inl SC_ERROR_NOT_SUPPORTED)"

text \<open>A checksum loop \<^verbatim>\<open>for (...) cks ^= blk[j]\<close> over the bytes of a buffer.\<close>

fun xor_fold :: "u8 \<Rightarrow> u8 list \<Rightarrow> u8" where
  "xor_fold cks [] = cks"
| "xor_fold cks (b # bs) = xor_fold (cks XOR b) bs"

text \<open>
  The PIN protection loop of \<^verbatim>\<open>gpk_pkfile_init_public\<close> over the CRYPTO ACL, on the
  seven bytes of \<^verbatim>\<open>sysrec\<close>.
\<close>

fun sysrec_pins :: "sc_acl_entry list \<Rightarrow> nat \<Rightarrow> u8 list \<Rightarrow> u8 list result" where
  "sysrec_pins [] npins sysrec = Inr sysrec"
| "sysrec_pins (a # rest) npins sysrec =
     (if method_acl a = SC_AC_NONE \<or> method_acl a = SC_AC_NEVER then sysrec_pins rest npins sysrec
      else if method_acl a \<noteq> SC_AC_CHV then Inl SC_ERROR_NOT_SUPPORTED
      else if 2 \<le> npins + 1 then Inl SC_ERROR_NOT_SUPPORTED
      else sysrec_pins rest (npins + 1)
             (sysrec[2 := sysrec ! 2 + 0x40,
                     3 := drop_bit 4 (sysrec ! 3) OR ucast (push_bit 4 (key_ref a))]))"

text \<open>The system record that \<^verbatim>\<open>gpk_pkfile_init_public\<close> sets up before it reads the card.\<close>

definition gpk_sysrec :: "sc_file \<Rightarrow> u32 \<Rightarrow> nat \<Rightarrow> u8 list result" where
  "gpk_sysrec file a nbits =
     (case gpk_pkfile_keybits nbits of Inl err \<Rightarrow> Inl err | Inr kb \<Rightarrow>
      case gpk_pkfile_keyalgo a of Inl err \<Rightarrow> Inl err | Inr ka \<Rightarrow>
      case sysrec_pins (sc_file_get_acl_entry file SC_AC_OP_CRYPTO) 0
             ((replicate 7 0)[2 := 0x00, 1 := kb, 5 := ka]) of
        Inl err \<Rightarrow> Inl err
      | Inr sysrec \<Rightarrow> Inr (sysrec[6 := xor_fold 0xFF (take 6 sysrec)]))"

definition gpk_pkfile_init_public ::
  "card \<Rightarrow> sc_file \<Rightarrow> u32 \<Rightarrow> nat \<Rightarrow> u32 \<Rightarrow> nat result \<times> card" where
  "gpk_pkfile_init_public c file a nbits usg =
     (case gpk_sysrec file a nbits of
        Inl err \<Rightarrow> (Inl err, c)
      | Inr sysrec \<Rightarrow>
          (case sc_read_record c 1 of
             (Inr buffer, c1) \<Rightarrow>
               if length buffer \<noteq> 7 \<or> hd buffer \<noteq> 0
               then (Inl SC_ERROR_OBJECT_NOT_VALID, c1)
               else sc_update_record c1 1 sysrec
           | (Inl _, c1) \<Rightarrow> sc_append_record c1 sysrec))"

text \<open>
  \<^verbatim>\<open>gpk_pkfile_update_public\<close>: the scan of the records 2 to 255, then the append of
  what is left.  \<^verbatim>\<open>pe->data, pe->size\<close> is the first \<^verbatim>\<open>size\<close> bytes of the component.
\<close>

definition payload :: "pkcomp \<Rightarrow> u8 list" where
  "payload pe = take (unat (size_comp pe)) (data pe)"

fun find_tag :: "u8 \<Rightarrow> pkcomp list \<Rightarrow> nat option" where
  "find_tag t [] = None"
| "find_tag t (pe # rest) =
     (if tag pe = t then Some 0
      else case find_tag t rest of None \<Rightarrow> None | Some m \<Rightarrow> Some (Suc m))"

function update_public_scan ::
  "card \<Rightarrow> pkcomp list \<Rightarrow> nat \<Rightarrow> nat \<Rightarrow> nat result \<times> pkcomp list \<times> card" where
  "update_public_scan c comps n r =
     (if n < 256 then
        (case sc_read_record c n of
           (Inl _, c1) \<Rightarrow> (Inr 0, comps, c1)
         | (Inr buffer, c1) \<Rightarrow>
             if length buffer < 2 then (Inl SC_ERROR_OBJECT_NOT_VALID, comps, c1)
             else (case find_tag (hd buffer) comps of
                 None \<Rightarrow> update_public_scan c1 comps (n + 1) (length buffer)
               | Some m \<Rightarrow>
                   (case sc_update_record c1 n (payload (comps ! m)) of
                      (Inl err, c2) \<Rightarrow> (Inl err, comps, c2)
                    | (Inr r2, c2) \<Rightarrow>
                        update_public_scan c2 (comps[m := (comps ! m)\<lparr>tag := 0\<rparr>])
                          (n + 1) r2)))
      else (Inr r, comps, c))"
  by pat_completeness auto
termination
  by (relation "measure (\<lambda>(c, comps, n, r). 256 - n)") auto

declare update_public_scan.simps [simp del]

fun append_remaining :: "card \<Rightarrow> pkcomp list \<Rightarrow> nat \<Rightarrow> nat result \<times> card" where
  "append_remaining c [] r = (Inr r, c)"
| "append_remaining c (pe # rest) r =
     (if tag pe \<noteq> 0
      then (case sc_append_record c (payload pe) of
              (Inl err, c1) \<Rightarrow> (Inl err, c1)
            | (Inr r1, c1) \<Rightarrow> append_remaining c1 rest r1)
      else append_remaining c rest r)"

definition gpk_pkfile_update_public :: "card \<Rightarrow> pkpart \<Rightarrow> nat result \<times> pkpart \<times> card" where
  "gpk_pkfile_update_public c part =
     (case update_public_scan c (components part) 2 0 of
        (Inl err, comps, c1) \<Rightarrow> (Inl err, part\<lparr>components := comps\<rparr>, c1)
      | (Inr r, comps, c1) \<Rightarrow>
          (case append_remaining c1 comps r of
             (r1, c2) \<Rightarrow> (r1, part\<lparr>components := comps\<rparr>, c2)))"

definition gpk_pkfile_init_private :: "card \<Rightarrow> sc_file \<Rightarrow> u32 \<Rightarrow> nat result \<times> card" where
  "gpk_pkfile_init_private c file privlen = card_op c (CardCtl_GPK_PKINIT file privlen)"

definition gpk_pkfile_load_private ::
  "card \<Rightarrow> sc_file \<Rightarrow> u8 list \<Rightarrow> u32 \<Rightarrow> nat \<Rightarrow> nat result \<times> card" where
  "gpk_pkfile_load_private c file dat len datalen =
     card_op c (CardCtl_GPK_PKLOAD file dat len datalen)"

text \<open>
  The block of \<^verbatim>\<open>gpk_pkfile_update_private\<close>: \<^verbatim>\<open>data[0..nb)\<close> after the checksum loop,
  \<^verbatim>\<open>data[nb++] = cks\<close> and \<^verbatim>\<open>while (nb & 7) data[nb++] = 0\<close>.
\<close>

function pad_loop :: "u8 list \<Rightarrow> u8 list" where
  "pad_loop blk = (if length blk AND 7 \<noteq> 0 then pad_loop (blk @ [0]) else blk)"
  by pat_completeness auto

lemma and_7_eq_mod_8: "(n::nat) AND 7 = n mod 8"
  using take_bit_eq_mask [of 3 n] by (simp add: take_bit_eq_mod mask_eq_exp_minus_1)

lemma pad_measure: "0 < (n::nat) mod 8 \<Longrightarrow> (8 - Suc n mod 8) mod 8 < 8 - n mod 8"
proof -
  assume a: "0 < n mod 8"
  have b: "n mod 8 < 8" by simp
  show ?thesis
  proof (cases "n mod 8 = 7")
    case True
    then show ?thesis by (simp add: mod_Suc)
  next
    case False
    with a b have "Suc n mod 8 = Suc (n mod 8)" by (simp add: mod_Suc)
    moreover have "8 - Suc (n mod 8) < 8" using a by simp
    ultimately show ?thesis using a b by simp
  qed
qed

termination pad_loop
  by (relation "measure (\<lambda>blk. (8 - length blk mod 8) mod 8)")
     (simp_all add: and_7_eq_mod_8 pad_measure)

declare pad_loop.simps [simp del]

text \<open>
  The loop of \<^verbatim>\<open>gpk_pkfile_update_private\<close> over the components.  \<^verbatim>\<open>pe->size + 8\<close> is
  an \<^verbatim>\<open>unsigned int\<close> sum.  \<^verbatim>\<open>memcpy(data, pe->data, pe->size)\<close> is undefined where it
  reads past the component or writes past \<^verbatim>\<open>data[256]\<close> (the latter only after the sum
  has wrapped around).
\<close>

fun update_private_loop ::
  "card \<Rightarrow> sc_file \<Rightarrow> u8 list \<Rightarrow> pkcomp list \<Rightarrow> nat \<Rightarrow> nat result \<times> card" where
  "update_private_loop c file keybuf [] r = (Inr r, c)"
| "update_private_loop c file keybuf (pe # rest) r =
     (if 256 < size_comp pe + 8 then (Inl SC_ERROR_BUFFER_TOO_SMALL, c)
      else if length (data pe) < unat (size_comp pe) \<or> 256 < unat (size_comp pe)
      then (Inl UNDEFINED_BEHAVIOUR, c)
      else
        case sc_verify c SC_AC_PRO 1 keybuf of
          (Inl err, c1) \<Rightarrow> (Inl err, c1)
        | (Inr _, c1) \<Rightarrow>
            let dat = payload pe;
                cks = xor_fold 0xff dat;
                blk = pad_loop (dat @ [cks])
            in case gpk_pkfile_load_private c1 file blk (size_comp pe) (length blk) of
                 (Inl err, c2) \<Rightarrow> (Inl err, c2)
               | (Inr r2, c2) \<Rightarrow> update_private_loop c2 file keybuf rest r2)"

definition gpk_pkfile_update_private ::
  "sc_profile \<Rightarrow> card \<Rightarrow> sc_file \<Rightarrow> pkpart \<Rightarrow> nat result \<times> card" where
  "gpk_pkfile_update_private profile c file part =
     (case secret profile SC_AC_PRO 1 of
        Inl _ \<Rightarrow> (Inl SC_ERROR_SECURITY_STATUS_NOT_SATISFIED, c)
      | Inr (r, keybuf) \<Rightarrow> update_private_loop c file keybuf (components part) r)"

text \<open>
  \<^verbatim>\<open>gpk_store_pk\<close>.  \<^verbatim>\<open>gpk_new_key\<close> hands the \<^verbatim>\<open>pkdata\<close> of the encoder to it
  unchanged, together with the key file of the profile.
\<close>

definition gpk_store_pk ::
  "sc_profile \<Rightarrow> card \<Rightarrow> sc_file \<Rightarrow> pkdata \<Rightarrow> nat result \<times> card" where
  "gpk_store_pk profile c file0 p0 =
     (let p = p0\<lparr>public_part := gpk_compute_publen (public_part p0),
                 private_part := gpk_compute_privlen (private_part p0)\<rparr>;
          file = file0\<lparr>size_file :=
                   unat (size_part (public_part p) + 8 + size_part (private_part p) + 8)\<rparr>
      in case gpk_pkfile_create c file of
           (Inl err, c1) \<Rightarrow> (Inl err, c1)
         | (Inr _, c1) \<Rightarrow>
       case gpk_pkfile_init_public c1 file (algo p) (bits p) (usage p) of
           (Inl err, c2) \<Rightarrow> (Inl err, c2)
         | (Inr _, c2) \<Rightarrow>
       case gpk_pkfile_update_public c2 (public_part p) of
           (Inl err, _, c3) \<Rightarrow> (Inl err, c3)
         | (Inr _, _, c3) \<Rightarrow>
       case gpk_pkfile_init_private c3 file (size_part (private_part p)) of
           (Inl err, c4) \<Rightarrow> (Inl err, c4)
         | (Inr _, c4) \<Rightarrow>
       gpk_pkfile_update_private profile c4 file (private_part p))"

subsection \<open>The PIN file\<close>

definition GPK_MAX_PINS :: nat where
  "GPK_MAX_PINS = 8"

text \<open>
  Modelled from the spec: \<^verbatim>\<open>sc_file_dup\<close>, \<^verbatim>\<open>sc_file_free\<close> and
  \<^verbatim>\<open>sc_file_add_acl_entry\<close> of libopensc are not under \<^verbatim>\<open>src/\<close>.  File structures live
  in a store, at addresses; \<^verbatim>\<open>sc_file_dup\<close> allocates a copy at a fresh address, and adding
  an entry with the method NONE (or NEVER, UNKNOWN) replaces the ACL of that operation
  by that single entry.
\<close>

record file_store =
  cells :: "nat \<Rightarrow> sc_file option"
  next_free :: nat

definition SC_AC_KEY_REF_NONE :: u32 where
  "SC_AC_KEY_REF_NONE = 0xFFFFFFFF"

definition sc_file_dup :: "file_store \<Rightarrow> nat \<Rightarrow> (nat \<times> file_store) result" where
  "sc_file_dup h src =
     (case cells h src of
        None \<Rightarrow> Inl UNDEFINED_BEHAVIOUR
      | Some f \<Rightarrow>
          Inr (next_free h,
               h\<lparr>cells := (cells h)(next_free h := Some f), next_free := Suc (next_free h)\<rparr>))"

definition sc_file_free :: "file_store \<Rightarrow> nat \<Rightarrow> file_store" where
  "sc_file_free h p = h\<lparr>cells := (cells h)(p := None)\<rparr>"

definition sc_file_add_acl_entry :: "sc_file \<Rightarrow> ac_op \<Rightarrow> ac_method \<Rightarrow> u32 \<Rightarrow> sc_file" where
  "sc_file_add_acl_entry file operation m ref =
     (if m = SC_AC_NEVER \<or> m = SC_AC_NONE \<or> m = SC_AC_UNKNOWN
      then file\<lparr>acl := (acl file)(operation := [\<lparr>method_acl = m, key_ref = SC_AC_KEY_REF_NONE\<rparr>])\<rparr>
      else file\<lparr>acl := (acl file)(operation :=
             filter (\<lambda>e. method_acl e \<noteq> SC_AC_NEVER \<and> method_acl e \<noteq> SC_AC_NONE
                          \<and> method_acl e \<noteq> SC_AC_UNKNOWN) (acl file operation)
             @ [\<lparr>method_acl = m, key_ref = ref\<rparr>])\<rparr>)"

text \<open>
  \<^verbatim>\<open>gpk_lock_pinfile\<close>: select the parent DF (the path without its last two bytes, or
  3F00), authenticate for LOCK, lock the WRITE operation of the PIN file.
\<close>

definition gpk_lock_pinfile :: "card \<Rightarrow> sc_file \<Rightarrow> nat result \<times> card" where
  "gpk_lock_pinfile c pinfile =
     (let p0 = path pinfile;
          p1 = (if 2 \<le> length p0 then take (length p0 - 2) p0 else p0);
          p2 = (if length p1 = 0 then [0x3F, 0x00] else p1)
      in case sc_select_file c p2 of
           (Inl err, c1) \<Rightarrow> (Inl err, c1)
         | (Inr parent, c1) \<Rightarrow>
             (case sc_pkcs15init_authenticate c1 parent SC_AC_OP_LOCK of
                (Inl err, c2) \<Rightarrow> (Inl err, c2)
              | (Inr _, c2) \<Rightarrow> gpk_lock c2 pinfile SC_AC_OP_WRITE))"

text \<open>
  The loop of \<^verbatim>\<open>gpk_init_pinfile\<close> that sets up \<^verbatim>\<open>buffer[GPK_MAX_PINS * 8]\<close>, row \<open>i\<close> at
  \<^verbatim>\<open>blk = buffer + 8 * i\<close>.  The test is \<^verbatim>\<open>(i % 1) == 0\<close>, as in the source.  A row past
  the end of the buffer is undefined behaviour.
\<close>

function pin_rows :: "nat \<Rightarrow> nat \<Rightarrow> u32 \<Rightarrow> u32 \<Rightarrow> u8 list \<Rightarrow> u8 list result" where
  "pin_rows i npins pin_att puk_att buffer =
     (if i < npins then
        if length buffer < 8 * i + 8 then Inl UNDEFINED_BEHAVIOUR
        else
          let b1 = (if i mod 1 = 0
                    then (let b0 = buffer[8 * i := ucast pin_att]
                          in if i + 1 < npins
                             then b0[8 * i + 2 := 0x8 OR of_nat (i + 1)]
                             else b0)
                    else buffer[8 * i := ucast puk_att]);
              cks = xor_fold 0 (take 8 (drop (8 * i) b1))
          in pin_rows (i + 1) npins pin_att puk_att (b1[8 * i + 3 := NOT cks])
      else Inr buffer)"
  by pat_completeness auto
termination
  by (relation "measure (\<lambda>(i, npins, pin_att, puk_att, buffer). npins - i)") auto

declare pin_rows.simps [simp del]

definition gpk_pin_table :: "u32 \<Rightarrow> u32 \<Rightarrow> nat \<Rightarrow> u8 list result" where
  "gpk_pin_table pin_att puk_att npins =
     pin_rows 0 npins pin_att puk_att (replicate (GPK_MAX_PINS * 8) 0)"

text \<open>
  \<^verbatim>\<open>gpk_init_pinfile\<close> from \<^verbatim>\<open>/* Now create the file */\<close> to the label \<^verbatim>\<open>out\<close>, on the
  working copy \<open>pinfile\<close>: create and select the file, set up and write the table, lock.
\<close>

definition gpk_init_pinfile_write :: "card \<Rightarrow> sc_file \<Rightarrow> u32 \<Rightarrow> u32 \<Rightarrow> nat result \<times> card" where
  "gpk_init_pinfile_write c pinfile pin_att puk_att =
     (case (case sc_pkcs15init_create_file c pinfile of
              (Inl err, c1) \<Rightarrow> (Inl err, c1)
            | (Inr _, c1) \<Rightarrow> sc_select_file c1 (path pinfile)) of
        (Inl err, c2) \<Rightarrow> (Inl err, c2)
      | (Inr _, c2) \<Rightarrow>
          let npins = size_file pinfile div 8
          in case gpk_pin_table pin_att puk_att npins of
               Inl err \<Rightarrow> (Inl err, c2)
             | Inr buffer \<Rightarrow>
                 (case sc_write_binary c2 0 (take (npins * 8) buffer) of
                    (Inl err, c3) \<Rightarrow> (Inl err, c3)
                  | (Inr _, c3) \<Rightarrow> gpk_lock_pinfile c3 pinfile))"

text \<open>
  \<^verbatim>\<open>gpk_init_pinfile\<close>.  The early return leaves the copy allocated; every other path
  frees it at \<^verbatim>\<open>out\<close>.
\<close>

definition gpk_init_pinfile ::
  "sc_profile \<Rightarrow> card \<Rightarrow> file_store \<Rightarrow> nat \<Rightarrow> nat result \<times> card \<times> file_store" where
  "gpk_init_pinfile profile c h file =
     (let pin_att = (if pin_attempts profile = 0 then 7 else pin_attempts profile);
          puk_att = (if puk_attempts profile = 0 then 3 else puk_attempts profile)
      in case sc_file_dup h file of
           Inl err \<Rightarrow> (Inl err, c, h)
         | Inr (pinfile, h1) \<Rightarrow>
       case cells h1 pinfile of
           None \<Rightarrow> (Inl UNDEFINED_BEHAVIOUR, c, h1)
         | Some pf \<Rightarrow>
       case sc_file_get_acl_entry pf SC_AC_OP_WRITE of
           [] \<Rightarrow> (Inl UNDEFINED_BEHAVIOUR, c, h1)
         | a # _ \<Rightarrow>
       if method_acl a \<noteq> SC_AC_NEVER then (Inl SC_ERROR_INVALID_ARGUMENTS, c, h1)
       else
         let pf1 = sc_file_add_acl_entry pf SC_AC_OP_WRITE SC_AC_NONE 0;
             pf2 = (if size_file pf1 = 0 then pf1\<lparr>size_file := GPK_MAX_PINS * 8\<rparr> else pf1);
             h2 = h1\<lparr>cells := (cells h1)(pinfile := Some pf2)\<rparr>
         in case gpk_init_pinfile_write c pf2 pin_att puk_att of
              (r, c') \<Rightarrow> (r, c', sc_file_free h2 pinfile))"

text \<open>
  \<^verbatim>\<open>gpk_new_pin\<close>.  \<^verbatim>\<open>index <<= 2\<close> is a 32-bit shift.  A PIN or PUK argument is a
  pointer (NULL is \<open>None\<close>) and a length.
\<close>

record sc_pkcs15_pin_info =
  pin_path :: "u8 list"
  reference :: u32

definition gpk_new_pin ::
  "sc_profile \<Rightarrow> card \<Rightarrow> sc_pkcs15_pin_info \<Rightarrow> u32 \<Rightarrow> u8 list option \<Rightarrow> nat
     \<Rightarrow> u8 list option \<Rightarrow> nat \<Rightarrow> nat result \<times> sc_pkcs15_pin_info \<times> card" where
  "gpk_new_pin profile c info0 index0 pin pin_len puk0 puk_len0 =
     (case pinfile_path profile of
        None \<Rightarrow> (Inl SC_ERROR_INVALID_ARGUMENTS, info0, c)
      | Some pp \<Rightarrow>
          let info = info0\<lparr>pin_path := (if 2 < length pp then take (length pp - 2) pp else pp)\<rparr>
          in case sc_select_file c (pin_path info) of
               (Inl err, c1) \<Rightarrow> (Inl err, info, c1)
             | (Inr _, c1) \<Rightarrow>
                 let index = push_bit 2 index0
                 in if of_nat GPK_MAX_PINS \<le> index
                    then (Inl SC_ERROR_TOO_MANY_OBJECTS, info, c1)
                    else
                      let (puk, puk_len) =
                            (if puk0 = None \<or> puk_len0 = 0 then (pin, pin_len)
                             else (puk0, puk_len0));
                          nulpin = replicate 8 0
                      in case sc_change_reference_data c1 SC_AC_CHV (0x8 OR index)
                                nulpin pin pin_len of
                           (Inl err, c2) \<Rightarrow> (Inl err, info, c2)
                         | (Inr _, c2) \<Rightarrow>
                             (case sc_change_reference_data c2 SC_AC_CHV
                                     (0x8 OR (index + 1)) nulpin puk puk_len of
                                (r, c3) \<Rightarrow> (r, info\<lparr>reference := 0x8 OR index\<rparr>, c3)))"

subsection \<open>Reading the log\<close>

text \<open>
  What a call added to the log of the card, the arguments of the load-private
  operations in a piece of log, whether every operation of it succeeded, and whether
  every load-private operation of it comes immediately after a successful verification
  of the secure messaging key \<open>keybuf\<close> (\<open>prev\<close> tells whether the operation before the
  piece was one).
\<close>

definition new_events :: "card \<Rightarrow> card \<Rightarrow> trace" where
  "new_events c c' = drop (length (log c)) (log c')"

fun pkload_args :: "trace \<Rightarrow> (sc_file \<times> u8 list \<times> u32 \<times> nat) list" where
  "pkload_args [] = []"
| "pkload_args ((CardCtl_GPK_PKLOAD f d l dl, rp) # evs) = (f, d, l, dl) # pkload_args evs"
| "pkload_args (other # evs) = pkload_args evs"

definition all_ok :: "trace \<Rightarrow> bool" where
  "all_ok evs = list_all (\<lambda>p. is_ok (snd p)) evs"

fun is_pkload :: "event \<Rightarrow> bool" where
  "is_pkload (CardCtl_GPK_PKLOAD f d l dl) = True"
| "is_pkload other = False"

fun is_verify_of :: "u8 list \<Rightarrow> event \<times> nat result \<Rightarrow> bool" where
  "is_verify_of keybuf (Verify t n k, rp) = (t = SC_AC_PRO \<and> n = 1 \<and> k = keybuf \<and> is_ok rp)"
| "is_verify_of keybuf other = False"

fun verified_loads :: "u8 list \<Rightarrow> bool \<Rightarrow> trace \<Rightarrow> bool" where
  "verified_loads keybuf prev [] = True"
| "verified_loads keybuf prev (p # evs) =
     ((is_pkload (fst p) \<longrightarrow> prev) \<and> verified_loads keybuf (is_verify_of keybuf p) evs)"

text \<open>
  The block of a private component as the specification words it: the payload, one
  checksum byte (the XOR of the seed 0xFF and all payload bytes), and zero bytes up to
  the next multiple of 8.
\<close>

definition spec_private_block :: "u8 list \<Rightarrow> u8 list" where
  "spec_private_block dat =
     dat @ [fold (XOR) dat 0xFF] @ replicate (round_up (length dat + 1) 8 - (length dat + 1)) 0"

text \<open>A component passes the size test and the \<^verbatim>\<open>memcpy\<close> of \<^verbatim>\<open>gpk_pkfile_update_private\<close>.\<close>

definition fits_buffer :: "pkcomp \<Rightarrow> bool" where
  "fits_buffer pe =
     (\<not> 256 < size_comp pe + 8
      \<and> \<not> (length (data pe) < unat (size_comp pe) \<or> 256 < unat (size_comp pe)))"

text \<open>
  What the loop of \<^verbatim>\<open>gpk_pkfile_update_private\<close> leaves behind: \<open>evs\<close> is what it added to
  the log and \<open>r\<close> its result, \<open>k\<close> the number of blocks it loaded.
\<close>

definition load_args :: "sc_file \<Rightarrow> pkcomp \<Rightarrow> sc_file \<times> u8 list \<times> u32 \<times> nat" where
  "load_args kf pe =
     (kf, spec_private_block (payload pe), size_comp pe, round_up (unat (size_comp pe) + 1) 8)"

definition private_loop_post ::
  "u8 list \<Rightarrow> sc_file \<Rightarrow> pkcomp list \<Rightarrow> trace \<Rightarrow> nat result \<Rightarrow> bool" where
  "private_loop_post keybuf kf comps evs r =
     (let k = length (pkload_args evs) in
      verified_loads keybuf False evs
      \<and> k \<le> length comps
      \<and> pkload_args evs = map (load_args kf) (take k comps)
      \<and> list_all fits_buffer (take k comps)
      \<and> all_ok (butlast evs)
      \<and> (case r of
            Inr _ \<Rightarrow> all_ok evs \<and> k = length comps
          | Inl err \<Rightarrow>
              if all_ok evs
              then k < length comps \<and> \<not> fits_buffer (comps ! k)
                   \<and> err = (if 256 < size_comp (comps ! k) + 8
                            then SC_ERROR_BUFFER_TOO_SMALL else UNDEFINED_BEHAVIOUR)
              else snd (last evs) = Inl err))"

subsection \<open>Example keys\<close>

text \<open>
  RSA keys with the public exponent 65537 and DSA keys, used to evaluate the functions
  above: an RSA key of 512 bits, one of 1024 bits, the latter without its CRT numbers
  and without any private number, an RSA key of 1024 bits whose prime \<open>p\<close> has 520 bits,
  an RSA key of 4096 bits, and DSA keys of 512, 1024 and 2048 bits.
\<close>

definition rsa_512 :: RSA where
  "rsa_512 =
     \<lparr>rsa_n = Some 10560492004094510842853985100197678151389323282320240773880330393390783464465747117332993490221898806493798769554309937018197815335715365707460297607911927,
      rsa_e = Some 65537,
      rsa_d = Some 9972661086735816127582743852573875873343818432633739433521213478135437963780885652746529871924073954538659152924373285657469241543747455111327329189404033,
      rsa_p = Some 103547513872910798704953735594147816711816891375301233384635120500006716159031,
      rsa_q = Some 101986919908631964226431106536233086874210835453099779065255855892424662116417,
      rsa_dmp1 = Some 70040760028474536621917376426882108043316642425913662144145671784874158526173,
      rsa_dmq1 = Some 77936263833622320710257147528077657763312740301846943484537647051351327160449,
      rsa_iqmp = Some 77932136941249054718917283029131165572729065352320175993808331762302397229656\<rparr>"

definition rsa_1024 :: RSA where
  "rsa_1024 =
     \<lparr>rsa_n = Some 137501818638697334315872743810235481644063740776962046117735817908208739816103701278353173797438899826658912870912979246040719821596277825183493696722407400007619028810644529946686583424615743873465549989977841816810547434201548221211111415754960757542486322385853412402237184634076943052800788704868061519223,
      rsa_e = Some 65537,
      rsa_d = Some 101131615149037778792036528940002909596215274317273060209760927335878628509328022476145989034959638821499502848829629455386343238790054224781341275453766274870159016871958863453343929736579690986160074466158909936074788263200447364644002266298465853039392293616620318741226143168883898039814442648779397396753,
      rsa_p = Some 13260409958371963806988816609461888004612504309712674962023908378544676860218518714259411011048386537794157405453610639453301803940987622132634167964186091,
      rsa_q = Some 10369348992252348868799498928712609005429170592580347224830856332650253128338432117986882048613544922995122924415591238042006951562584756285051384397420453,
      rsa_dmp1 = Some 1371627006237751844722480244679221489895298330951099738583701953067036398300522428001961445349909399876506294941331256005827745074018571042878481233947503,
      rsa_dmq1 = Some 3800000835359028682758709824540194553967871433266737862562562774329937735680670829877640816051261248082363661377378500145793688384860431385295010437964005,
      rsa_iqmp = Some 3770054316465997672318720940931046502795961497907551227988856656816402336988349152902485900445616465982936021730548676705541159283346418745149740878269345\<rparr>"

definition rsa_1024_no_crt :: RSA where
  "rsa_1024_no_crt =
     \<lparr>rsa_n = Some 137501818638697334315872743810235481644063740776962046117735817908208739816103701278353173797438899826658912870912979246040719821596277825183493696722407400007619028810644529946686583424615743873465549989977841816810547434201548221211111415754960757542486322385853412402237184634076943052800788704868061519223,
      rsa_e = Some 65537,
      rsa_d = Some 101131615149037778792036528940002909596215274317273060209760927335878628509328022476145989034959638821499502848829629455386343238790054224781341275453766274870159016871958863453343929736579690986160074466158909936074788263200447364644002266298465853039392293616620318741226143168883898039814442648779397396753,
      rsa_p = None,
      rsa_q = None,
      rsa_dmp1 = None,
      rsa_dmq1 = None,
      rsa_iqmp = None\<rparr>"

definition rsa_1024_public :: RSA where
  "rsa_1024_public =
     \<lparr>rsa_n = Some 137501818638697334315872743810235481644063740776962046117735817908208739816103701278353173797438899826658912870912979246040719821596277825183493696722407400007619028810644529946686583424615743873465549989977841816810547434201548221211111415754960757542486322385853412402237184634076943052800788704868061519223,
      rsa_e = Some 65537,
      rsa_d = None,
      rsa_p = None,
      rsa_q = None,
      rsa_dmp1 = None,
      rsa_dmq1 = None,
      rsa_iqmp = None\<rparr>"

definition rsa_1024_unbalanced :: RSA where
  "rsa_1024_unbalanced =
     \<lparr>rsa_n = Some 153026336909701203031263155337772184143122130694018210383914611300320960790481305451578145377770748595751497319979166704632934865392682438396277119685051323975169704251166590942212563264527452348285354397911699673221249071505532023608952980231848624023815877331497040721860752250691924771510852810827676993431,
      rsa_e = Some 65537,
      rsa_d = Some 100835289370057318047898124162865126145852407251189044592052618963400227226405468299226424891878324886820092646341765935877035753268886142211929557556781719144119401101363452088656844127639866724944238052544239733463494972762950128871499107332386973320853423775424124401695996001806345360666045470635049490833,
      rsa_p = Some 3193151556862103806927382347500139306781829206675101914861095585735862415202494842345644638120182587454743351675710493169882261881358257496341626287425961593,
      rsa_q = Some 47923292767249519770718285457207843251447081999491296389097894359259011649969538052341612079956014466526539615723331358816635448859690773266072976781967,
      rsa_dmp1 = Some 3023352311006107472533956840061013538374140804928565909653488919024089210493998961765597160148215052821180927692466660393022782767933268141095725992757614305,
      rsa_dmq1 = Some 4065695832673258310957072602378436737690858231490175136539424945259625933042870921327179504166431793244847342164299897081350887218821134616466511297553,
      rsa_iqmp = Some 1283632496572725221156664341404179032634801263265880599545493625638911474319944912766267441740157289976014525956591833125962797650384979862416966953799495756\<rparr>"

definition rsa_4096 :: RSA where
  "rsa_4096 =
     \<lparr>rsa_n = Some 794842570914966336279878137350484729896336955072305504419108056351715160115864756715454914571880309762705756297055721555882829732515123237914034778569647871580850076617168768867049668834604531379955602405577934597508517557019480318544153292678284466262014838524749003173933232596178530922350684564323054747585496969888924238584713745600683456866435992001254214368139715573686809435787740619534094674436480561288884067019193944573068332301633673855604136752160184411507620656702763865995947559491661375820301310930677331163877310563607306210774127538169555885194507047190273615405541674540257867785990466619856604554931195871973895795542982916650536222109558137139234064132635665306148932622714363649073622397009658926325867633474280370679192925708014010905747633269750104661709125917841637371143115347327756176542228449703535228295550140311730863648287345198924649619075046261134426530521212095907612021607630749286234164100883880170247450638415754662272664495136501232224154897813275316959422716873566291908598337557549123832732086426742117992404048613547306177842485151031277118131415072813659122225394966020844044981722948930345074801900584066961142038308583181801028826798955822371356816551205956203534183952416874346919627945317,
      rsa_e = Some 65537,
      rsa_d = Some 681420111492094291833391109556998101060861678452438847762143310589760231184061848361350601571953174603927902063720886150072123968466090897084090575307622650789173467731748894194045892297057472810516281202334501966233060087296328817269683579491423359887259162038436650187335988425107813294356977161702409798939395261504328979734838973352066771808912617461746311767000776958170093048960651337542504375897793007553228730419052012997815649943807131323940955848148678779323979837295646547919225988831331833932948245336834244036840970658044715190691431645208912483172152805993339992394530707600964162252710291393207551870174727979837570906996906992655773675255549261409976838029313054095001535428375128981431626250294763339140804118067904069336015779363078671885903556827841661687668802303462166559736467803568206628259425623905313534263962593613539177624697562755047065803489613551918381645502151916580680775720422504239485369232777230865517891004311263654426753320533969816462433632167879230249447946430210500400986082144535436393520700199219927001010180287544671696943722027649942731066940318745844247519075461281324719213545806073252448898407644335745090374526384237212940118234524888107092696972406685235791848387894936003362995546573,
      rsa_p = Some 28034404192459021260476873945333945396573803907963568682175113527825662438279699643066331309546207412046538651768767876863500780272394124937546113208476780703944589871336437379140175672509617881988678786438192922597728862988142989754531524408912798172449250975324252759579909980292922371490363702200012410422529149950410263341929967966637240769618801644317604421921789464351489703008552312965778277787379147002920257430535201979490302374127738853548206044903084178669654300776403187800873687967870435774351007743614181183653930885054389980068601369636836638834138740105142167346598196456442968685693850653115529124871,
      rsa_q = Some 28352397484829414099960993712029021302769294608405815661778703843391960629047624261305244463532368396769835709732277128645727455000128439507643338984006099929558603919389421584501847026558824281983682668268767898025714549591087792306324937631205772394150956746127429659500979428830884791197816488034105483438815326833996731253955800291432057482430847583608276684819379398699272872097696980370613512373063651388463317312371793544902636770614456547350242254190944621121739989450330697267670721748013599897090700773404458743192069452588856038388853508271258904548672958534355005501117203009561796955830963164260614987827,
      rsa_dmp1 = Some 1589145239711693607926386418464617043018015495339802823661146325829261881962999285502714814760580443654010575572897335284616405980010439509635531235324949880451564022949095394410878627696922813549413944666644593244282813158993411461282704627601370908199169436704908662310440904783377429697525079782001710556169733006786611048953565634619487456843216017038312715373597324565753456012279656418021366586510116897567004232028293564761989003461930662693311952894013423314429493681192881008899488087654892181541938046714477060244966251704793609349754399624652457592944831461473719451494763260992807554013040804069826063123,
      rsa_dmq1 = Some 5946315873918249184490651976316262535767031667493750648811332290575133113298741100014351971424575485811089794013612907719845642445897209225819883338193140417348719210095176765475653255108580492788283233522349432509322161284915417325334334311013982049187556654645795820221263747948189747089643829104609302681943278870459207334568602087457979921204998703582644354072392233930779645497701222137023097297217753152180116521332229157188866478662369428617865935026847945699655403130976325342083617962775942301074380611417127506983459643038799857296714702705165839800746293163475739667864808510710391063947031275352276622483,
      rsa_iqmp = Some 24598755339464794476681841188297228778282242921022079174620212317965743026052133625828931291878850560283258572687163206129433997034423684811129165610332443118757920909791150390090308893167145116485264562920938158227371610396224188147988141975143363225285775633775805254519154391452075537885875934482433872925020841730648439231926456921695812168985764859587495172825078227959575049598992937223311614146684167679228273296803693106099498907498172577823639658529346608539998438300021378194474206712269373941793469509421794194917520340890325185966542610472711093324242868029914646880441342085540438771764638469758528503048\<rparr>"

definition dsa_512 :: DSA where
  "dsa_512 =
     \<lparr>dsa_p = Some 12146080050453578878665769577454950511759834109421788645872992417194906827974039630643295991539149249076092380682387842278415581430654507777780094100501613,
      dsa_q = Some 1401088081773246093517583132524230447734876318237,
      dsa_g = Some 1061780649500082765019433528090114128766699802288837706082288439970837397807733828305306622772776247905725718246381597027901781534201644911933212903609416,
      dsa_pub_key = Some 3597943137044119726817634375410307407471938302051052350452787724308497146524863361565334046901053512282187661265773121678535392510362702283223728703502835,
      dsa_priv_key = Some 1238503763285808874647069703448946301569731389703\<rparr>"

definition dsa_512_public :: DSA where
  "dsa_512_public =
     \<lparr>dsa_p = Some 12146080050453578878665769577454950511759834109421788645872992417194906827974039630643295991539149249076092380682387842278415581430654507777780094100501613,
      dsa_q = Some 1401088081773246093517583132524230447734876318237,
      dsa_g = Some 1061780649500082765019433528090114128766699802288837706082288439970837397807733828305306622772776247905725718246381597027901781534201644911933212903609416,
      dsa_pub_key = Some 3597943137044119726817634375410307407471938302051052350452787724308497146524863361565334046901053512282187661265773121678535392510362702283223728703502835,
      dsa_priv_key = None\<rparr>"

definition dsa_1024 :: DSA where
  "dsa_1024 =
     \<lparr>dsa_p = Some 135716370148061992393503760213971881633971633679933671791970241866223533290077497713679999414330924644156176972641940263423028571533627556417873800299244149860659221202069943540585458637734137379260926635150192043777651111287825091459081419854432041059675546079850118988272872099553647747918909098410061655423,
      dsa_q = Some 1300478053989456530328276648926827323084328300793,
      dsa_g = Some 131598034309485568592125388531008610773999039053254612991881497731911702444399334923287919709563847329418507008489542508776124509900949461751924150329162635910299145460273067342615255394684769160507447523071828837291013827883372375794605468124039044778827737614323656525032955384693792158415412234357836856627,
      dsa_pub_key = Some 64710986000548919312312020832969064992957060057278164485765102632103947599221062744660818618271041000090996396430792825414636159771526746653127762949882820783838035648179292947517990674237254959747823548078453997952550311385579535471344111945440133477200897563302481007418700617747856375442180110236673618632,
      dsa_priv_key = Some 592824295733462479204508676171888374215183746781\<rparr>"

definition dsa_2048 :: DSA where
  "dsa_2048 =
     \<lparr>dsa_p = Some 18141419163093535047431172225371684249443288608352854892744202790418399022758367482698849975342462350997572838043824697173312577582704426702425363940140503983674227330633604952941959050051364067050561631621531294498808759207969249176016063950245183222021579613662713956214630239308166571554661444079376260102763468543438966571450455983293832669837808713837836112941743600594045014539632837310465905220745789051833948429762309705253774736882501919444472854080463531755013006946400479153652433216047609020023440278848104273754224579422094171173099527938039029971872067026099964278913405494159973688980629932376537509063,
      dsa_q = Some 72964958786712702743497907802356981034476429189256805208230547890118451305971,
      dsa_g = Some 13013065491300324784756590923934917701926058091343590810734430853348687589520183751047749453153507551870972387055437563961113366647531593937449118419502450498766363752471652792948728699455916607972669725145726291595306916517362737554924198441811444710775357423331385991462603510633884675920362407967998527960990247882496262423131997262053436244446117073393087441703963240109292037294293302808286010008031923836343168300112186910713679399744719949972339696619620448052553989996483786392203999047946382149246760069889087585258333951472188079962530858921366466122772348290742527522249661266220393836810758727123512949278,
      dsa_pub_key = Some 3486942005220536574522979722167049537552021330757116923904395539448730463596574395296799045586166827239854210041066470791603448205583396706381763742480492297907973453515232928525578154196523824194540110263104199544438135857281558431463514311501423032630271222802690638657660233946217378063846643896199802518060122873301453179499640629660201025823907702879432608441893549768581899865385297866811672462900092055826433825338206801991191331980743308603383891311324982553960324259263417445861492490205669689864249449811125283377795616320778349883025963214883464377867539839242323113043109508234895070952046168530150036748,
      dsa_priv_key = Some 68404119596021109602494728388504327564007507676918396892471737536302456781451\<rparr>"


subsection \<open>Example profile, key file and card\<close>

text \<open>
  A key file without PIN protection, a profile that defines the PIN file and a secure
  messaging key, and a card that accepts every operation, on which every file selected
  exists and holds no record yet.
\<close>

definition key_file_example :: sc_file where
  "key_file_example =
     \<lparr>path = [0x3F, 0x00, 0x50, 0x15, 0x00, 0x06], size_file = 0,
      acl = (\<lambda>_. [\<lparr>method_acl = SC_AC_NONE, key_ref = SC_AC_KEY_REF_NONE\<rparr>])\<rparr>"

definition profile_example :: sc_profile where
  "profile_example =
     \<lparr>pin_attempts = 0, puk_attempts = 0,
      pinfile_path = Some [0x3F, 0x00, 0x50, 0x15, 0x00, 0x00],
      secret = (\<lambda>_ _. Inr (0, [1, 2, 3, 4, 5, 6, 7, 8]))\<rparr>"

definition accepting_card :: card where
  "accepting_card =
     \<lparr>reply = (\<lambda>_ _. Inr 0),
      select_reply = (\<lambda>_ p. Inr (key_file_example\<lparr>path := p\<rparr>)),
      read_reply = (\<lambda>_ _. Inl (SC_ERROR_OTHER (- 1))),
      log = []\<rparr>"

text \<open>
  A PIN file template protected by WRITE=NEVER, the same template with WRITE=CHV, and
  a store that holds a file structure at address 0.
\<close>

definition pin_file_example :: sc_file where
  "pin_file_example =
     \<lparr>path = [0x3F, 0x00, 0x50, 0x15, 0x00, 0x00], size_file = 0,
      acl = (\<lambda>operation. if operation = SC_AC_OP_WRITE
                         then [\<lparr>method_acl = SC_AC_NEVER, key_ref = SC_AC_KEY_REF_NONE\<rparr>]
                         else [\<lparr>method_acl = SC_AC_NONE, key_ref = SC_AC_KEY_REF_NONE\<rparr>])\<rparr>"

definition pin_file_chv_example :: sc_file where
  "pin_file_chv_example =
     pin_file_example\<lparr>acl := (\<lambda>_. [\<lparr>method_acl = SC_AC_CHV, key_ref = 1\<rparr>])\<rparr>"

definition store_example :: "sc_file \<Rightarrow> file_store" where
  "store_example f = \<lparr>cells = (\<lambda>a. if a = 0 then Some f else None), next_free = 1\<rparr>"

text \<open>
  A private part with two small components, one whose second component does not fit
  the working buffer, and a profile without a secure messaging key.
\<close>

definition private_part_example :: pkpart where
  "private_part_example =
     \<lparr>components =
        [\<lparr>tag = 0x0d, data = [0x0d, 1, 2], size_comp = 3\<rparr>,
         \<lparr>tag = 0x04, data = [0x04, 0xAA, 0xBB, 0xCC, 0xDD, 0xEE, 0x11, 0x22], size_comp = 8\<rparr>],
      size_part = 32\<rparr>"

definition private_part_too_big :: pkpart where
  "private_part_too_big =
     \<lparr>components =
        [\<lparr>tag = 0x0d, data = [0x0d, 1, 2], size_comp = 3\<rparr>,
         \<lparr>tag = 0x51, data = 0x51 # replicate 249 0, size_comp = 250\<rparr>],
      size_part = 272\<rparr>"

definition profile_without_secret :: sc_profile where
  "profile_without_secret = profile_example\<lparr>secret := (\<lambda>_ _. Inl SC_ERROR_FILE_NOT_FOUND)\<rparr>"

section \<open>Properties\<close>

subsection \<open>Rounding with masks\<close>

lemma and_not_mask_shift: "(x::u32) AND NOT (mask n) = push_bit n (drop_bit n x)"
  by (rule bit_eqI) (auto simp: bit_simps)

lemma unat_round_down: "unat ((x::u32) AND NOT (mask n)) = (unat x div 2 ^ n) * 2 ^ n"
proof -
  have "unat (push_bit n (drop_bit n x)) = take_bit 32 (push_bit n (drop_bit n (unat x)))"
    by (simp add: unsigned_push_bit_eq unat_drop_bit_eq)
  also have "\<dots> = push_bit n (drop_bit n (unat x))"
  proof -
    have "push_bit n (drop_bit n (unat x)) \<le> unat x"
      by (simp add: push_bit_eq_mult drop_bit_eq_div)
    also have "\<dots> < 2 ^ 32"
      using unsigned_less [of x] by simp
    finally show ?thesis
      by (simp add: take_bit_nat_eq_self)
  qed
  finally show ?thesis
    by (simp add: and_not_mask_shift push_bit_eq_mult drop_bit_eq_div)
qed

lemma unat_and_not_7: "unat ((x::u32) AND NOT 7) = (unat x div 8) * 8"
proof -
  have "(7::u32) = mask 3"
    by (simp add: mask_eq_exp_minus_1)
  then show ?thesis
    using unat_round_down [of x 3] by simp
qed

lemma unat_and_not_3: "unat ((x::u32) AND NOT 3) = (unat x div 4) * 4"
proof -
  have "(3::u32) = mask 2"
    by (simp add: mask_eq_exp_minus_1)
  then show ?thesis
    using unat_round_down [of x 2] by simp
qed

subsection \<open>The planned lengths\<close>

lemma unat_publen_loop:
  "unat acc + publen_sum cs < 2 ^ 32 \<Longrightarrow> unat (publen_loop cs acc) = unat acc + publen_sum cs"
proof (induction cs arbitrary: acc)
  case Nil
  then show ?case by simp
next
  case (Cons c cs)
  have "unat (acc + (2 + size_comp c)) = unat acc + (2 + unat (size_comp c))"
    using Cons.prems by (simp add: unat_word_ariths)
  with Cons show ?case by simp
qed

lemma unat_privlen_step:
  assumes "round_up (3 + unat (s::u32)) 8 < 2 ^ 32"
  shows "unat ((3 + s + 7) AND NOT 7) = round_up (3 + unat s) 8"
proof -
  have "3 + unat s + 7 < 2 ^ 32"
    using assms by (simp add: round_up_def)
  then have "unat (3 + s + 7) = 3 + unat s + 7"
    by (simp add: unat_word_ariths)
  with unat_and_not_7 [of "3 + s + 7"] show ?thesis
    by (simp add: round_up_def)
qed

lemma unat_privlen_loop:
  "unat acc + privlen_sum cs < 2 ^ 32 \<Longrightarrow> unat (privlen_loop cs acc) = unat acc + privlen_sum cs"
proof (induction cs arbitrary: acc)
  case Nil
  then show ?case by simp
next
  case (Cons c cs)
  let ?r = "round_up (3 + unat (size_comp c)) 8"
  have r: "?r < 2 ^ 32"
    using Cons.prems by simp
  have "unat (acc + ((3 + size_comp c + 7) AND NOT 7)) = unat acc + ?r"
    using Cons.prems unat_privlen_step [OF r] by (simp add: unat_word_ariths)
  with Cons show ?case by simp
qed

lemma privlen_sum_dvd: "8 dvd privlen_sum cs"
  by (induction cs) (simp_all add: round_up_def)

lemma privlen_sum_mono:
  "list_all2 (\<lambda>c c'. size_comp c \<le> size_comp c') cs cs' \<Longrightarrow> privlen_sum cs \<le> privlen_sum cs'"
proof (induction rule: list_all2_induct)
  case Nil
  then show ?case by simp
next
  case (Cons c cs c' cs')
  have "unat (size_comp c) \<le> unat (size_comp c')"
    using Cons.hyps(1) by (simp add: word_le_nat_alt)
  then have "round_up (3 + unat (size_comp c)) 8 \<le> round_up (3 + unat (size_comp c')) 8"
    by (simp add: round_up_def div_le_mono)
  with Cons show ?case by simp
qed

text \<open>
  The sums are \<^verbatim>\<open>unsigned int\<close> sums.  As long as they stay below \<open>2 ^ 32\<close> they are the
  sums of the natural numbers.
\<close>

lemma gpk_compute_lengths_no_wrap:
  "(8 + publen_sum (components part) + 3 < 2 ^ 32 \<longrightarrow>
      unat (size_part (gpk_compute_publen part)) = round_up (8 + publen_sum (components part)) 4)
   \<and> (8 + privlen_sum (components part) < 2 ^ 32 \<longrightarrow>
      unat (size_part (gpk_compute_privlen part)) = 8 + privlen_sum (components part)
      \<and> 8 dvd unat (size_part (gpk_compute_privlen part))
      \<and> 8 \<le> unat (size_part (gpk_compute_privlen part)))
   \<and> (8 + privlen_sum (components part') < 2 ^ 32
      \<and> list_all2 (\<lambda>c c'. size_comp c \<le> size_comp c') (components part) (components part') \<longrightarrow>
      size_part (gpk_compute_privlen part) \<le> size_part (gpk_compute_privlen part'))"
proof (intro conjI impI)
  assume a: "8 + publen_sum (components part) + 3 < 2 ^ 32"
  then have "unat (publen_loop (components part) 8) = 8 + publen_sum (components part)"
    using unat_publen_loop [of 8 "components part"] by simp
  then have "unat (publen_loop (components part) 8 + 3) = 8 + publen_sum (components part) + 3"
    using a by (simp add: unat_word_ariths)
  with unat_and_not_3 [of "publen_loop (components part) 8 + 3"]
  show "unat (size_part (gpk_compute_publen part)) = round_up (8 + publen_sum (components part)) 4"
    by (simp add: gpk_compute_publen_def round_up_def)
next
  assume a: "8 + privlen_sum (components part) < 2 ^ 32"
  then show b: "unat (size_part (gpk_compute_privlen part)) = 8 + privlen_sum (components part)"
    using unat_privlen_loop [of 8 "components part"] by (simp add: gpk_compute_privlen_def)
  show "8 dvd unat (size_part (gpk_compute_privlen part))"
    using b privlen_sum_dvd [of "components part"] by simp
  show "8 \<le> unat (size_part (gpk_compute_privlen part))"
    using b by simp
next
  assume a: "8 + privlen_sum (components part') < 2 ^ 32
      \<and> list_all2 (\<lambda>c c'. size_comp c \<le> size_comp c') (components part) (components part')"
  then have m: "privlen_sum (components part) \<le> privlen_sum (components part')"
    using privlen_sum_mono by blast
  have "unat (size_part (gpk_compute_privlen part')) = 8 + privlen_sum (components part')"
    using a unat_privlen_loop [of 8 "components part'"] by (simp add: gpk_compute_privlen_def)
  moreover have "unat (size_part (gpk_compute_privlen part)) = 8 + privlen_sum (components part)"
    using a m unat_privlen_loop [of 8 "components part"] by (simp add: gpk_compute_privlen_def)
  ultimately show "size_part (gpk_compute_privlen part) \<le> size_part (gpk_compute_privlen part')"
    using m by (simp add: word_le_nat_alt)
qed


lemma publen_sum_le:
  "list_all (\<lambda>c. unat (size_comp c) \<le> 257) cs \<Longrightarrow> publen_sum cs \<le> 259 * length cs"
  by (induction cs) simp_all

lemma round_up_8_le: "round_up n 8 \<le> n + 7"
  using div_times_less_eq_dividend [of "n + 7" 8] by (simp add: round_up_def)

lemma privlen_sum_le:
  "list_all (\<lambda>c. unat (size_comp c) \<le> 257) cs \<Longrightarrow> privlen_sum cs \<le> 267 * length cs"
proof (induction cs)
  case Nil
  then show ?case by simp
next
  case (Cons c cs)
  have "round_up (3 + unat (size_comp c)) 8 \<le> 3 + unat (size_comp c) + 7"
    by (rule round_up_8_le)
  with Cons show ?case by simp
qed

lemma bounded_part_sums:
  assumes "bounded_part part"
  shows "8 + publen_sum (components part) + 3 < 2 ^ 32"
    and "8 + privlen_sum (components part) < 2 ^ 32"
proof -
  from assms have l: "length (components part) \<le> 7"
    and b: "list_all (\<lambda>c. unat (size_comp c) \<le> 257) (components part)"
    by (simp_all add: bounded_part_def)
  have "publen_sum (components part) \<le> 259 * length (components part)"
    using b by (rule publen_sum_le)
  also have "\<dots> \<le> 259 * 7" using l by simp
  finally show "8 + publen_sum (components part) + 3 < 2 ^ 32" by simp
  have "privlen_sum (components part) \<le> 267 * length (components part)"
    using b by (rule privlen_sum_le)
  also have "\<dots> \<le> 267 * 7" using l by simp
  finally show "8 + privlen_sum (components part) < 2 ^ 32" by simp
qed

text \<open>
  Every part that \<^verbatim>\<open>gpk_encode_rsa_key\<close> or \<^verbatim>\<open>gpk_encode_dsa_key\<close> returns is bounded, and
  the sums of a bounded part stay far below \<open>2 ^ 32\<close>.
\<close>

lemma bounded_empty_part: "bounded_part empty_part"
  by (simp add: bounded_part_def empty_part_def)

lemma gpk_add_bignum_bounded:
  assumes "gpk_add_bignum part tg bn size0 = Inr part'" "bounded_part part" "size0 \<le> 256"
  shows "bounded_part part'"
proof -
  let ?sz = "if size0 = 0 then BN_num_bytes bn else size0"
  from assms(1) have l: "length (components part) < 7" and n: "BN_num_bytes bn \<le> 256"
    by (auto simp: gpk_add_bignum_def gpk_bn2bin_def Let_def split: if_splits sum.splits)
  with assms(3) have sz: "?sz \<le> 256" by simp
  from assms(1) l obtain num where
    p: "part' = part\<lparr>components := components part @
           [\<lparr>tag = tg, data = tg # num, size_comp = of_nat (?sz + 1)\<rparr>]\<rparr>"
    by (auto simp: gpk_add_bignum_def Let_def split: if_splits sum.splits)
  have "unat (of_nat (?sz + 1) :: u32) \<le> 257"
    using sz by (simp only: unat_of_nat) simp
  with assms(2) l show ?thesis
    by (simp add: p bounded_part_def)
qed

lemma gpk_encode_dsa_key_bounded:
  assumes "gpk_encode_dsa_key dsa info = Inr pk"
  shows "bounded_part (public_part pk) \<and> bounded_part (private_part pk)"
proof -
  from assms obtain pub1 pub2 pub3 pub4 priv where
    a: "gpk_add_bignum empty_part 0x09 (the (dsa_p dsa)) 0 = Inr pub1"
      "gpk_add_bignum pub1 0x0a (the (dsa_q dsa)) 0 = Inr pub2"
      "gpk_add_bignum pub2 0x0b (the (dsa_g dsa)) 0 = Inr pub3"
      "gpk_add_bignum pub3 0x0c (the (dsa_pub_key dsa)) 0 = Inr pub4"
      "gpk_add_bignum empty_part 0x0d (the (dsa_priv_key dsa)) 0 = Inr priv"
      "public_part pk = pub4" "private_part pk = priv"
    by (auto simp: gpk_encode_dsa_key_def Let_def split: if_splits sum.splits)
  have "bounded_part pub1" using a(1) bounded_empty_part by (rule gpk_add_bignum_bounded) simp
  then have "bounded_part pub2" using a(2) gpk_add_bignum_bounded by blast
  then have "bounded_part pub3" using a(3) gpk_add_bignum_bounded by blast
  then have "bounded_part pub4" using a(4) gpk_add_bignum_bounded by blast
  moreover have "bounded_part priv"
    using a(5) bounded_empty_part by (rule gpk_add_bignum_bounded) simp
  ultimately show ?thesis using a(6,7) by simp
qed

lemma gpk_encode_rsa_private_bounded:
  assumes "gpk_encode_rsa_private rsa nb = Inr priv" "nb \<le> 256"
  shows "bounded_part priv"
proof (cases "rsa_p rsa = None \<or> rsa_q rsa = None \<or> rsa_dmp1 rsa = None
         \<or> rsa_dmq1 rsa = None \<or> rsa_iqmp rsa = None")
  case True
  with assms obtain d where "gpk_add_bignum empty_part 0x04 d 0 = Inr priv"
    by (auto simp: gpk_encode_rsa_private_def split: option.splits)
  then show ?thesis using bounded_empty_part by (rule gpk_add_bignum_bounded) simp
next
  case False
  show ?thesis
  proof (cases "5 * (nb div 2) < 256")
    case True
    with False assms obtain crtbuf where
      "priv = empty_part\<lparr>components :=
         [\<lparr>tag = 0x05, data = crtbuf, size_comp = of_nat (5 * (nb div 2) + 1)\<rparr>]\<rparr>"
      by (auto simp: gpk_encode_rsa_private_def Let_def split: sum.splits)
    moreover have "unat (of_nat (5 * (nb div 2) + 1) :: u32) \<le> 257"
      using True by (simp only: unat_of_nat) simp
    ultimately show ?thesis by (simp add: bounded_part_def empty_part_def)
  next
    case k: False
    have h: "nb div 2 \<le> 256" using assms(2) by simp
    from False k assms obtain p1 p2 p3 p4 where
      a: "gpk_add_bignum empty_part 0x51 (the (rsa_p rsa)) (nb div 2) = Inr p1"
        "gpk_add_bignum p1 0x52 (the (rsa_q rsa)) (nb div 2) = Inr p2"
        "gpk_add_bignum p2 0x53 (the (rsa_iqmp rsa)) (nb div 2) = Inr p3"
        "gpk_add_bignum p3 0x54 (the (rsa_dmp1 rsa)) (nb div 2) = Inr p4"
        "gpk_add_bignum p4 0x55 (the (rsa_dmq1 rsa)) (nb div 2) = Inr priv"
      by (auto simp: gpk_encode_rsa_private_def split: sum.splits)
    have "bounded_part p1" using a(1) bounded_empty_part h by (rule gpk_add_bignum_bounded)
    then have "bounded_part p2" using a(2) h gpk_add_bignum_bounded by blast
    then have "bounded_part p3" using a(3) h gpk_add_bignum_bounded by blast
    then have "bounded_part p4" using a(4) h gpk_add_bignum_bounded by blast
    then show ?thesis using a(5) h gpk_add_bignum_bounded by blast
  qed
qed

lemma gpk_encode_rsa_key_bounded:
  assumes "gpk_encode_rsa_key rsa info = Inr pk"
  shows "bounded_part (public_part pk) \<and> bounded_part (private_part pk)"
proof -
  from assms obtain n e pub1 pub2 priv where
    a: "gpk_add_bignum empty_part 0x01 n 0 = Inr pub1"
      "gpk_add_bignum pub1 0x07 e 0 = Inr pub2"
      "gpk_encode_rsa_private rsa (BN_num_bytes n) = Inr priv"
      "public_part pk = pub2" "private_part pk = priv"
    by (auto simp: gpk_encode_rsa_key_def split: option.splits if_splits sum.splits)
  from a(1) have n: "BN_num_bytes n \<le> 256"
    by (auto simp: gpk_add_bignum_def gpk_bn2bin_def Let_def split: if_splits sum.splits)
  have "bounded_part pub1" using a(1) bounded_empty_part by (rule gpk_add_bignum_bounded) simp
  then have "bounded_part pub2" using a(2) gpk_add_bignum_bounded by blast
  moreover have "bounded_part priv" using a(3) n by (rule gpk_encode_rsa_private_bounded)
  ultimately show ?thesis using a(4,5) by simp
qed

text \<open>
  C6: for every key part of the program (at most seven components of at most 257
  bytes, which is what both encoders build), \<^verbatim>\<open>gpk_compute_publen\<close> yields 8 plus the
  sum of \<open>2 + size\<close>, rounded up to a multiple of 4, and \<^verbatim>\<open>gpk_compute_privlen\<close> yields
  8 plus the sum of \<open>3 + size\<close> rounded up to a multiple of 8; the private length is a
  multiple of 8, at least 8, and does not decrease when component sizes grow.
\<close>

theorem gpk_compute_lengths:
  "bounded_part part \<longrightarrow>
     unat (size_part (gpk_compute_publen part)) = round_up (8 + publen_sum (components part)) 4
   \<and> unat (size_part (gpk_compute_privlen part)) = 8 + privlen_sum (components part)
   \<and> 8 dvd unat (size_part (gpk_compute_privlen part))
   \<and> 8 \<le> unat (size_part (gpk_compute_privlen part))
   \<and> (bounded_part part'
        \<and> list_all2 (\<lambda>c c'. size_comp c \<le> size_comp c') (components part) (components part') \<longrightarrow>
        size_part (gpk_compute_privlen part) \<le> size_part (gpk_compute_privlen part'))"
proof (intro impI)
  assume b: "bounded_part part"
  note s = bounded_part_sums [OF b]
  note g = gpk_compute_lengths_no_wrap [of part part']
  have "bounded_part part'
        \<and> list_all2 (\<lambda>c c'. size_comp c \<le> size_comp c') (components part) (components part') \<longrightarrow>
        size_part (gpk_compute_privlen part) \<le> size_part (gpk_compute_privlen part')"
    using g bounded_part_sums(2) [of part'] by blast
  with s g show "unat (size_part (gpk_compute_publen part)) = round_up (8 + publen_sum (components part)) 4
   \<and> unat (size_part (gpk_compute_privlen part)) = 8 + privlen_sum (components part)
   \<and> 8 dvd unat (size_part (gpk_compute_privlen part))
   \<and> 8 \<le> unat (size_part (gpk_compute_privlen part))
   \<and> (bounded_part part'
        \<and> list_all2 (\<lambda>c c'. size_comp c \<le> size_comp c') (components part) (components part') \<longrightarrow>
        size_part (gpk_compute_privlen part) \<le> size_part (gpk_compute_privlen part'))"
    by blast
qed

theorem gpk_compute_lengths_witness:
  "unat (size_part (gpk_compute_publen
       \<lparr>components = [\<lparr>tag = 0x51, data = replicate 60 1, size_comp = 60\<rparr>,
                      \<lparr>tag = 0x52, data = replicate 65 1, size_comp = 65\<rparr>], size_part = 0\<rparr>)) = 140
   \<and> unat (size_part (gpk_compute_privlen
       \<lparr>components = [\<lparr>tag = 0x51, data = replicate 60 1, size_comp = 60\<rparr>,
                      \<lparr>tag = 0x52, data = replicate 65 1, size_comp = 65\<rparr>], size_part = 0\<rparr>)) = 144
   \<and> size_part (gpk_compute_privlen
       \<lparr>components = [\<lparr>tag = 0x51, data = replicate 60 1, size_comp = 60\<rparr>,
                      \<lparr>tag = 0x52, data = replicate 65 1, size_comp = 65\<rparr>], size_part = 0\<rparr>)
     \<le> size_part (gpk_compute_privlen
       \<lparr>components = [\<lparr>tag = 0x51, data = replicate 65 1, size_comp = 65\<rparr>,
                      \<lparr>tag = 0x52, data = replicate 65 1, size_comp = 65\<rparr>], size_part = 0\<rparr>)"
  using gpk_compute_lengths
    [of "\<lparr>components = [\<lparr>tag = 0x51, data = replicate 60 1, size_comp = 60\<rparr>,
                        \<lparr>tag = 0x52, data = replicate 65 1, size_comp = 65\<rparr>], size_part = 0\<rparr>"
        "\<lparr>components = [\<lparr>tag = 0x51, data = replicate 65 1, size_comp = 65\<rparr>,
                        \<lparr>tag = 0x52, data = replicate 65 1, size_comp = 65\<rparr>], size_part = 0\<rparr>"]
  by (simp add: round_up_def bounded_part_def)

subsection \<open>Byte lengths of BIGNUMs\<close>

lemma length_bn_magnitude_le: "length (bn_magnitude n) \<le> k \<longleftrightarrow> n < 256 ^ k"
proof (induction n arbitrary: k rule: bn_magnitude.induct)
  case (1 n)
  show ?case
  proof (cases "n = 0")
    case True
    then show ?thesis by (simp add: bn_magnitude.simps)
  next
    case False
    then have len: "length (bn_magnitude n) = Suc (length (bn_magnitude (n div 256)))"
      by (subst bn_magnitude.simps) simp
    show ?thesis
    proof (cases k)
      case 0
      with False len show ?thesis by simp
    next
      case (Suc j)
      have "n div 256 < 256 ^ j \<longleftrightarrow> n < 256 ^ j * 256"
        by (rule div_less_iff_less_mult) simp
      with Suc len 1 [OF False, of j] show ?thesis by (simp add: mult.commute)
    qed
  qed
qed

lemma BN_num_bytes_le: "BN_num_bytes bn \<le> k \<longleftrightarrow> nat \<bar>bn\<bar> < 256 ^ k"
  by (simp add: BN_num_bytes_def BN_bn2bin_def length_bn_magnitude_le)

lemma gpk_add_bignum_0:
  "BN_num_bytes bn \<le> 256 \<Longrightarrow> length (components part) < 7 \<Longrightarrow>
   gpk_add_bignum part tg bn 0 =
     Inr (part\<lparr>components := components part @
       [\<lparr>tag = tg, data = tg # rev (BN_bn2bin bn), size_comp = of_nat (BN_num_bytes bn + 1)\<rparr>]\<rparr>)"
  by (simp add: gpk_add_bignum_def gpk_bn2bin_def Let_def BN_num_bytes_def)

lemma gpk_add_bignum_fixed:
  "0 < sz \<Longrightarrow> BN_num_bytes bn \<le> 256 \<Longrightarrow> BN_num_bytes bn \<le> sz \<Longrightarrow>
   length (components part) < 7 \<Longrightarrow>
   gpk_add_bignum part tg bn sz =
     Inr (part\<lparr>components := components part @
       [\<lparr>tag = tg, data = tg # rev (BN_bn2bin bn) @ replicate (sz - BN_num_bytes bn) 0,
         size_comp = of_nat (sz + 1)\<rparr>]\<rparr>)"
  by (simp add: gpk_add_bignum_def gpk_bn2bin_def Let_def BN_num_bytes_def)

subsection \<open>DSA keys\<close>

lemma dsa_missing:
  "dsa_p dsa = None \<or> dsa_q dsa = None \<or> dsa_g dsa = None
     \<or> dsa_pub_key dsa = None \<or> dsa_priv_key dsa = None \<Longrightarrow>
   gpk_encode_dsa_key dsa info = Inl SC_ERROR_INVALID_ARGUMENTS"
  by (simp add: gpk_encode_dsa_key_def)

lemma dsa_too_big:
  "dsa_p dsa = Some p \<Longrightarrow> 128 < BN_num_bytes p \<Longrightarrow>
   gpk_encode_dsa_key dsa info = Inl SC_ERROR_INVALID_ARGUMENTS"
  by (simp add: gpk_encode_dsa_key_def Let_def)

lemma dsa_result:
  "gpk_encode_dsa_key dsa info = Inr pk \<Longrightarrow>
   \<exists>p. dsa_p dsa = Some p \<and>
     ((BN_num_bytes p \<le> 64 \<and> bytes pk = 64 \<and> bits pk = 512)
      \<or> (64 < BN_num_bytes p \<and> BN_num_bytes p \<le> 128 \<and> bytes pk = 128 \<and> bits pk = 1024))"
  by (auto simp: gpk_encode_dsa_key_def Let_def split: if_splits sum.splits)

lemma dsa_success:
  assumes "dsa_p dsa = Some p" "dsa_q dsa = Some q" "dsa_g dsa = Some g"
    "dsa_pub_key dsa = Some y" "dsa_priv_key dsa = Some x"
    "BN_num_bytes p \<le> 128" "BN_num_bytes q \<le> 256" "BN_num_bytes g \<le> 256"
    "BN_num_bytes y \<le> 256" "BN_num_bytes x \<le> 256"
  shows "\<exists>pk. gpk_encode_dsa_key dsa info = Inr pk"
  using assms
  by (simp add: gpk_encode_dsa_key_def Let_def gpk_add_bignum_0 empty_part_def)

text \<open>
  C7: \<^verbatim>\<open>gpk_encode_dsa_key\<close> fails with \<open>SC_ERROR_INVALID_ARGUMENTS\<close> when one of \<open>p\<close>,
  \<open>q\<close>, \<open>g\<close>, the public or the private value is missing, and when the modulus has
  more than 128 bytes.  Whenever it succeeds, the modulus size it leaves is 64 bytes and
  512 bits (raw modulus of at most 64 bytes) or 128 bytes and 1024 bits (raw modulus of
  65 to 128 bytes).  It does succeed on a complete key whose modulus has at most 128
  bytes (the other numbers fitting the 256 bytes of \<^verbatim>\<open>gpk_bn2bin\<close>).
\<close>

theorem gpk_encode_dsa_key_modulus:
  "(dsa_p dsa = None \<or> dsa_q dsa = None \<or> dsa_g dsa = None
      \<or> dsa_pub_key dsa = None \<or> dsa_priv_key dsa = None \<longrightarrow>
      gpk_encode_dsa_key dsa info = Inl SC_ERROR_INVALID_ARGUMENTS)
   \<and> (dsa_p dsa = Some p \<and> 128 < BN_num_bytes p \<longrightarrow>
      gpk_encode_dsa_key dsa info = Inl SC_ERROR_INVALID_ARGUMENTS)
   \<and> (gpk_encode_dsa_key dsa info = Inr pk \<longrightarrow>
      (\<exists>p. dsa_p dsa = Some p \<and>
        ((BN_num_bytes p \<le> 64 \<and> bytes pk = 64 \<and> bits pk = 512)
         \<or> (64 < BN_num_bytes p \<and> BN_num_bytes p \<le> 128
             \<and> bytes pk = 128 \<and> bits pk = 1024))))
   \<and> (dsa_p dsa = Some p \<and> dsa_q dsa = Some q \<and> dsa_g dsa = Some g
      \<and> dsa_pub_key dsa = Some y \<and> dsa_priv_key dsa = Some x
      \<and> BN_num_bytes p \<le> 128 \<and> BN_num_bytes q \<le> 256 \<and> BN_num_bytes g \<le> 256
      \<and> BN_num_bytes y \<le> 256 \<and> BN_num_bytes x \<le> 256 \<longrightarrow>
      (\<exists>pk'. gpk_encode_dsa_key dsa info = Inr pk'))"
proof (intro conjI impI)
  assume "dsa_p dsa = None \<or> dsa_q dsa = None \<or> dsa_g dsa = None
      \<or> dsa_pub_key dsa = None \<or> dsa_priv_key dsa = None"
  then show "gpk_encode_dsa_key dsa info = Inl SC_ERROR_INVALID_ARGUMENTS"
    by (rule dsa_missing)
next
  assume "dsa_p dsa = Some p \<and> 128 < BN_num_bytes p"
  then show "gpk_encode_dsa_key dsa info = Inl SC_ERROR_INVALID_ARGUMENTS"
    using dsa_too_big by blast
next
  assume "gpk_encode_dsa_key dsa info = Inr pk"
  then show "\<exists>p. dsa_p dsa = Some p \<and>
        ((BN_num_bytes p \<le> 64 \<and> bytes pk = 64 \<and> bits pk = 512)
         \<or> (64 < BN_num_bytes p \<and> BN_num_bytes p \<le> 128
             \<and> bytes pk = 128 \<and> bits pk = 1024))"
    by (rule dsa_result)
next
  assume "dsa_p dsa = Some p \<and> dsa_q dsa = Some q \<and> dsa_g dsa = Some g
      \<and> dsa_pub_key dsa = Some y \<and> dsa_priv_key dsa = Some x
      \<and> BN_num_bytes p \<le> 128 \<and> BN_num_bytes q \<le> 256 \<and> BN_num_bytes g \<le> 256
      \<and> BN_num_bytes y \<le> 256 \<and> BN_num_bytes x \<le> 256"
  then show "\<exists>pk'. gpk_encode_dsa_key dsa info = Inr pk'"
    using dsa_success [of dsa p q g y x info] by blast
qed

lemma BN_num_bytes_eq:
  "256 ^ k \<le> nat \<bar>bn\<bar> \<Longrightarrow> nat \<bar>bn\<bar> < 256 ^ Suc k \<Longrightarrow> BN_num_bytes bn = Suc k"
proof -
  assume a: "256 ^ k \<le> nat \<bar>bn\<bar>" and b: "nat \<bar>bn\<bar> < 256 ^ Suc k"
  from a have "\<not> BN_num_bytes bn \<le> k" by (simp add: BN_num_bytes_le)
  moreover from b have "BN_num_bytes bn \<le> Suc k" by (simp only: BN_num_bytes_le)
  ultimately show ?thesis by simp
qed

theorem gpk_encode_dsa_key_modulus_witness:
  "gpk_encode_dsa_key dsa_512_public \<lparr>usage_info = 0\<rparr> = Inl SC_ERROR_INVALID_ARGUMENTS
   \<and> gpk_encode_dsa_key dsa_2048 \<lparr>usage_info = 0\<rparr> = Inl SC_ERROR_INVALID_ARGUMENTS
   \<and> (\<exists>pk. gpk_encode_dsa_key dsa_512 \<lparr>usage_info = 0\<rparr> = Inr pk
         \<and> bytes pk = 64 \<and> bits pk = 512)
   \<and> (\<exists>pk. gpk_encode_dsa_key dsa_1024 \<lparr>usage_info = 0\<rparr> = Inr pk
         \<and> bytes pk = 128 \<and> bits pk = 1024)"
proof (intro conjI)
  show "gpk_encode_dsa_key dsa_512_public \<lparr>usage_info = 0\<rparr> = Inl SC_ERROR_INVALID_ARGUMENTS"
    using gpk_encode_dsa_key_modulus [where dsa = dsa_512_public and info = "\<lparr>usage_info = 0\<rparr>"]
    by (simp add: dsa_512_public_def)
next
  have "128 < BN_num_bytes (the (dsa_p dsa_2048))"
    by (simp add: dsa_2048_def not_le [symmetric] BN_num_bytes_le)
  then show "gpk_encode_dsa_key dsa_2048 \<lparr>usage_info = 0\<rparr> = Inl SC_ERROR_INVALID_ARGUMENTS"
    using gpk_encode_dsa_key_modulus [where dsa = dsa_2048 and info = "\<lparr>usage_info = 0\<rparr>"
        and p = "the (dsa_p dsa_2048)"]
    by (simp add: dsa_2048_def)
next
  have s: "BN_num_bytes (the (dsa_p dsa_512)) \<le> 64"
    by (simp add: dsa_512_def BN_num_bytes_le)
  have "\<exists>pk. gpk_encode_dsa_key dsa_512 \<lparr>usage_info = 0\<rparr> = Inr pk"
    using gpk_encode_dsa_key_modulus [where dsa = dsa_512 and info = "\<lparr>usage_info = 0\<rparr>"
        and p = "the (dsa_p dsa_512)" and q = "the (dsa_q dsa_512)" and g = "the (dsa_g dsa_512)"
        and y = "the (dsa_pub_key dsa_512)" and x = "the (dsa_priv_key dsa_512)"]
    by (simp add: dsa_512_def BN_num_bytes_le)
  then obtain pk where pk: "gpk_encode_dsa_key dsa_512 \<lparr>usage_info = 0\<rparr> = Inr pk" ..
  with s gpk_encode_dsa_key_modulus [where dsa = dsa_512 and info = "\<lparr>usage_info = 0\<rparr>" and pk = pk]
  have "bytes pk = 64 \<and> bits pk = 512"
    by (auto simp: dsa_512_def)
  with pk show "\<exists>pk. gpk_encode_dsa_key dsa_512 \<lparr>usage_info = 0\<rparr> = Inr pk
         \<and> bytes pk = 64 \<and> bits pk = 512" by blast
next
  have s: "64 < BN_num_bytes (the (dsa_p dsa_1024))"
    by (simp add: dsa_1024_def not_le [symmetric] BN_num_bytes_le)
  have "\<exists>pk. gpk_encode_dsa_key dsa_1024 \<lparr>usage_info = 0\<rparr> = Inr pk"
    using gpk_encode_dsa_key_modulus [where dsa = dsa_1024 and info = "\<lparr>usage_info = 0\<rparr>"
        and p = "the (dsa_p dsa_1024)" and q = "the (dsa_q dsa_1024)" and g = "the (dsa_g dsa_1024)"
        and y = "the (dsa_pub_key dsa_1024)" and x = "the (dsa_priv_key dsa_1024)"]
    by (simp add: dsa_1024_def BN_num_bytes_le)
  then obtain pk where pk: "gpk_encode_dsa_key dsa_1024 \<lparr>usage_info = 0\<rparr> = Inr pk" ..
  with s gpk_encode_dsa_key_modulus [where dsa = dsa_1024 and info = "\<lparr>usage_info = 0\<rparr>" and pk = pk]
  have "bytes pk = 128 \<and> bits pk = 1024"
    by (auto simp: dsa_1024_def)
  with pk show "\<exists>pk. gpk_encode_dsa_key dsa_1024 \<lparr>usage_info = 0\<rparr> = Inr pk
         \<and> bytes pk = 128 \<and> bits pk = 1024" by blast
qed

subsection \<open>RSA keys\<close>

lemma gpk_bn2bin_fits:
  "BN_num_bytes bn \<le> 256 \<Longrightarrow> BN_num_bytes bn \<le> sz \<Longrightarrow>
   gpk_bn2bin bn sz = Inr (rev (BN_bn2bin bn) @ replicate (sz - BN_num_bytes bn) 0)"
  by (simp add: gpk_bn2bin_def Let_def BN_num_bytes_def)

lemma length_gpk_bn2bin: "gpk_bn2bin bn sz = Inr bs \<Longrightarrow> length bs = sz"
  by (auto simp: gpk_bn2bin_def Let_def split: if_splits)

lemma BN_num_bytes_F4: "BN_num_bytes 65537 = 3"
  using BN_num_bytes_eq [of 2 65537] by simp

lemma rsa_public_part:
  assumes "rsa_n rsa = Some n" "rsa_e rsa = Some 65537" "BN_num_bytes n \<le> 256"
  shows "gpk_encode_rsa_key rsa info =
    (case gpk_encode_rsa_private rsa (BN_num_bytes n) of
       Inl err \<Rightarrow> Inl err
     | Inr priv \<Rightarrow> Inr \<lparr>algo = SC_ALGORITHM_RSA, usage = usage_info info,
         public_part = \<lparr>components =
           [\<lparr>tag = 0x01, data = 0x01 # rev (BN_bn2bin n), size_comp = of_nat (BN_num_bytes n + 1)\<rparr>,
            \<lparr>tag = 0x07, data = 0x07 # rev (BN_bn2bin 65537), size_comp = 4\<rparr>], size_part = 0\<rparr>,
         private_part = priv, bits = BN_num_bits n, bytes = BN_num_bytes n\<rparr>)"
  using assms
  by (simp add: gpk_encode_rsa_key_def BN_is_word_def RSA_F4_def gpk_add_bignum_0
      empty_part_def BN_num_bytes_F4 split: sum.splits)

lemma rsa_private_plain:
  assumes "rsa_p rsa = None \<or> rsa_q rsa = None \<or> rsa_dmp1 rsa = None
             \<or> rsa_dmq1 rsa = None \<or> rsa_iqmp rsa = None"
  shows "rsa_d rsa = None \<Longrightarrow> gpk_encode_rsa_private rsa nb = Inl SC_ERROR_INVALID_ARGUMENTS"
    and "rsa_d rsa = Some d \<Longrightarrow> BN_num_bytes d \<le> 256 \<Longrightarrow>
         gpk_encode_rsa_private rsa nb = Inr \<lparr>components =
           [\<lparr>tag = 0x04, data = 0x04 # rev (BN_bn2bin d), size_comp = of_nat (BN_num_bytes d + 1)\<rparr>],
           size_part = 0\<rparr>"
  using assms by (simp_all add: gpk_encode_rsa_private_def gpk_add_bignum_0 empty_part_def)

lemma rsa_private_one_record:
  assumes "rsa_p rsa = Some p" "rsa_q rsa = Some q" "rsa_dmp1 rsa = Some dp"
    "rsa_dmq1 rsa = Some dq" "rsa_iqmp rsa = Some qi"
    and k: "5 * (nb div 2) < 256"
    and fits: "BN_num_bytes p \<le> nb div 2" "BN_num_bytes q \<le> nb div 2"
      "BN_num_bytes dp \<le> nb div 2" "BN_num_bytes dq \<le> nb div 2" "BN_num_bytes qi \<le> nb div 2"
  shows "\<exists>crtbuf. gpk_encode_rsa_private rsa nb =
           Inr \<lparr>components = [\<lparr>tag = 0x05, data = crtbuf, size_comp = of_nat (5 * (nb div 2) + 1)\<rparr>],
                size_part = 0\<rparr>
         \<and> length crtbuf = 5 * (nb div 2) + 1 \<and> hd crtbuf = 0x05"
proof -
  have le: "BN_num_bytes p \<le> 256" "BN_num_bytes q \<le> 256" "BN_num_bytes dp \<le> 256"
    "BN_num_bytes dq \<le> 256" "BN_num_bytes qi \<le> 256"
    using k fits by simp_all
  show ?thesis
    using assms le
    by (simp add: gpk_encode_rsa_private_def gpk_crtbuf_def gpk_bn2bin_fits empty_part_def
        Let_def BN_num_bytes_def [symmetric])
qed

lemma rsa_private_five_records:
  assumes "rsa_p rsa = Some p" "rsa_q rsa = Some q" "rsa_dmp1 rsa = Some dp"
    "rsa_dmq1 rsa = Some dq" "rsa_iqmp rsa = Some qi"
    and k: "\<not> 5 * (nb div 2) < 256" and nb: "nb \<le> 256"
    and fits: "BN_num_bytes p \<le> nb div 2" "BN_num_bytes q \<le> nb div 2"
      "BN_num_bytes dp \<le> nb div 2" "BN_num_bytes dq \<le> nb div 2" "BN_num_bytes qi \<le> nb div 2"
  shows "\<exists>priv. gpk_encode_rsa_private rsa nb = Inr priv
         \<and> map tag (components priv) = [0x51, 0x52, 0x53, 0x54, 0x55]
         \<and> (\<forall>c \<in> set (components priv).
               size_comp c = of_nat (nb div 2 + 1) \<and> length (data c) = nb div 2 + 1)"
proof -
  have pos: "0 < nb div 2" using k by simp
  have le: "BN_num_bytes p \<le> 256" "BN_num_bytes q \<le> 256" "BN_num_bytes dp \<le> 256"
    "BN_num_bytes dq \<le> 256" "BN_num_bytes qi \<le> 256"
    using nb fits by simp_all
  show ?thesis
    using assms le pos
    by (simp add: gpk_encode_rsa_private_def gpk_add_bignum_fixed empty_part_def
        BN_num_bytes_def [symmetric])
qed

lemma unat_of_nat_u32: "n < 2 ^ 32 \<Longrightarrow> unat (of_nat n :: u32) = n"
  by (simp add: unat_of_nat)

text \<open>
  C3, amended: for an RSA key with modulus and public exponent 65537, the modulus
  fitting the 256 bytes of \<^verbatim>\<open>gpk_bn2bin\<close>: (1) when a CRT number is missing, the encoder
  fails with \<open>SC_ERROR_INVALID_ARGUMENTS\<close> if \<open>d\<close> is missing too, and otherwise emits the
  single private component tagged 0x04 that holds \<open>d\<close> (of at most 256 bytes); when all
  five CRT numbers are present and each fits \<open>bytes / 2\<close> bytes, it emits (2) exactly one
  component tagged 0x05 of size \<open>5 * (bytes / 2) + 1\<close> if \<open>5 * (bytes / 2) < 256\<close>, and
  (3) exactly five components tagged 0x51 to 0x55, each of size \<open>bytes / 2 + 1\<close>,
  otherwise.
\<close>

theorem gpk_encode_rsa_key_private:
  "rsa_n rsa = Some n \<and> rsa_e rsa = Some 65537 \<and> BN_num_bytes n \<le> 256 \<longrightarrow>
     ((rsa_p rsa = None \<or> rsa_q rsa = None \<or> rsa_dmp1 rsa = None
         \<or> rsa_dmq1 rsa = None \<or> rsa_iqmp rsa = None) \<and> rsa_d rsa = None \<longrightarrow>
        gpk_encode_rsa_key rsa info = Inl SC_ERROR_INVALID_ARGUMENTS)
   \<and> ((rsa_p rsa = None \<or> rsa_q rsa = None \<or> rsa_dmp1 rsa = None
         \<or> rsa_dmq1 rsa = None \<or> rsa_iqmp rsa = None)
        \<and> rsa_d rsa = Some d \<and> BN_num_bytes d \<le> 256 \<longrightarrow>
        (\<exists>pk. gpk_encode_rsa_key rsa info = Inr pk
           \<and> components (private_part pk) =
               [\<lparr>tag = 0x04, data = 0x04 # rev (BN_bn2bin d),
                 size_comp = of_nat (BN_num_bytes d + 1)\<rparr>]))
   \<and> (rsa_p rsa = Some p \<and> rsa_q rsa = Some q \<and> rsa_dmp1 rsa = Some dp
        \<and> rsa_dmq1 rsa = Some dq \<and> rsa_iqmp rsa = Some qi
        \<and> BN_num_bytes p \<le> BN_num_bytes n div 2 \<and> BN_num_bytes q \<le> BN_num_bytes n div 2
        \<and> BN_num_bytes dp \<le> BN_num_bytes n div 2 \<and> BN_num_bytes dq \<le> BN_num_bytes n div 2
        \<and> BN_num_bytes qi \<le> BN_num_bytes n div 2 \<longrightarrow>
        (5 * (BN_num_bytes n div 2) < 256 \<longrightarrow>
           (\<exists>pk c. gpk_encode_rsa_key rsa info = Inr pk \<and> bytes pk = BN_num_bytes n
              \<and> components (private_part pk) = [c] \<and> tag c = 0x05 \<and> hd (data c) = 0x05
              \<and> unat (size_comp c) = 5 * (bytes pk div 2) + 1
              \<and> length (data c) = 5 * (bytes pk div 2) + 1))
        \<and> (\<not> 5 * (BN_num_bytes n div 2) < 256 \<longrightarrow>
           (\<exists>pk. gpk_encode_rsa_key rsa info = Inr pk \<and> bytes pk = BN_num_bytes n
              \<and> map tag (components (private_part pk)) = [0x51, 0x52, 0x53, 0x54, 0x55]
              \<and> (\<forall>c \<in> set (components (private_part pk)).
                    unat (size_comp c) = bytes pk div 2 + 1
                    \<and> length (data c) = bytes pk div 2 + 1))))"
proof (intro impI)
  assume pub: "rsa_n rsa = Some n \<and> rsa_e rsa = Some 65537 \<and> BN_num_bytes n \<le> 256"
  then have n: "BN_num_bytes n \<le> 256" by simp
  note enc = rsa_public_part [of rsa n info]
  let ?K = "BN_num_bytes n div 2"
  have K: "?K + 1 < 2 ^ 32" "5 * ?K + 1 < 2 ^ 32" using n by simp_all
  show "((rsa_p rsa = None \<or> rsa_q rsa = None \<or> rsa_dmp1 rsa = None
         \<or> rsa_dmq1 rsa = None \<or> rsa_iqmp rsa = None) \<and> rsa_d rsa = None \<longrightarrow>
        gpk_encode_rsa_key rsa info = Inl SC_ERROR_INVALID_ARGUMENTS)
   \<and> ((rsa_p rsa = None \<or> rsa_q rsa = None \<or> rsa_dmp1 rsa = None
         \<or> rsa_dmq1 rsa = None \<or> rsa_iqmp rsa = None)
        \<and> rsa_d rsa = Some d \<and> BN_num_bytes d \<le> 256 \<longrightarrow>
        (\<exists>pk. gpk_encode_rsa_key rsa info = Inr pk
           \<and> components (private_part pk) =
               [\<lparr>tag = 0x04, data = 0x04 # rev (BN_bn2bin d),
                 size_comp = of_nat (BN_num_bytes d + 1)\<rparr>]))
   \<and> (rsa_p rsa = Some p \<and> rsa_q rsa = Some q \<and> rsa_dmp1 rsa = Some dp
        \<and> rsa_dmq1 rsa = Some dq \<and> rsa_iqmp rsa = Some qi
        \<and> BN_num_bytes p \<le> BN_num_bytes n div 2 \<and> BN_num_bytes q \<le> BN_num_bytes n div 2
        \<and> BN_num_bytes dp \<le> BN_num_bytes n div 2 \<and> BN_num_bytes dq \<le> BN_num_bytes n div 2
        \<and> BN_num_bytes qi \<le> BN_num_bytes n div 2 \<longrightarrow>
        (5 * (BN_num_bytes n div 2) < 256 \<longrightarrow>
           (\<exists>pk c. gpk_encode_rsa_key rsa info = Inr pk \<and> bytes pk = BN_num_bytes n
              \<and> components (private_part pk) = [c] \<and> tag c = 0x05 \<and> hd (data c) = 0x05
              \<and> unat (size_comp c) = 5 * (bytes pk div 2) + 1
              \<and> length (data c) = 5 * (bytes pk div 2) + 1))
        \<and> (\<not> 5 * (BN_num_bytes n div 2) < 256 \<longrightarrow>
           (\<exists>pk. gpk_encode_rsa_key rsa info = Inr pk \<and> bytes pk = BN_num_bytes n
              \<and> map tag (components (private_part pk)) = [0x51, 0x52, 0x53, 0x54, 0x55]
              \<and> (\<forall>c \<in> set (components (private_part pk)).
                    unat (size_comp c) = bytes pk div 2 + 1
                    \<and> length (data c) = bytes pk div 2 + 1))))"
  proof (intro conjI impI)
    assume "(rsa_p rsa = None \<or> rsa_q rsa = None \<or> rsa_dmp1 rsa = None
         \<or> rsa_dmq1 rsa = None \<or> rsa_iqmp rsa = None) \<and> rsa_d rsa = None"
    then show "gpk_encode_rsa_key rsa info = Inl SC_ERROR_INVALID_ARGUMENTS"
      using pub enc rsa_private_plain(1) [of rsa "BN_num_bytes n"] by simp
  next
    assume a: "(rsa_p rsa = None \<or> rsa_q rsa = None \<or> rsa_dmp1 rsa = None
         \<or> rsa_dmq1 rsa = None \<or> rsa_iqmp rsa = None)
        \<and> rsa_d rsa = Some d \<and> BN_num_bytes d \<le> 256"
    then have "gpk_encode_rsa_private rsa (BN_num_bytes n) = Inr \<lparr>components =
           [\<lparr>tag = 0x04, data = 0x04 # rev (BN_bn2bin d), size_comp = of_nat (BN_num_bytes d + 1)\<rparr>],
           size_part = 0\<rparr>"
      using rsa_private_plain(2) [of rsa d "BN_num_bytes n"] by blast
    with pub enc show "\<exists>pk. gpk_encode_rsa_key rsa info = Inr pk
           \<and> components (private_part pk) =
               [\<lparr>tag = 0x04, data = 0x04 # rev (BN_bn2bin d),
                 size_comp = of_nat (BN_num_bytes d + 1)\<rparr>]"
      by simp
  next
    assume a: "rsa_p rsa = Some p \<and> rsa_q rsa = Some q \<and> rsa_dmp1 rsa = Some dp
        \<and> rsa_dmq1 rsa = Some dq \<and> rsa_iqmp rsa = Some qi
        \<and> BN_num_bytes p \<le> BN_num_bytes n div 2 \<and> BN_num_bytes q \<le> BN_num_bytes n div 2
        \<and> BN_num_bytes dp \<le> BN_num_bytes n div 2 \<and> BN_num_bytes dq \<le> BN_num_bytes n div 2
        \<and> BN_num_bytes qi \<le> BN_num_bytes n div 2"
      and k: "5 * (BN_num_bytes n div 2) < 256"
    then obtain crtbuf where
      "gpk_encode_rsa_private rsa (BN_num_bytes n) =
           Inr \<lparr>components = [\<lparr>tag = 0x05, data = crtbuf, size_comp = of_nat (5 * ?K + 1)\<rparr>],
                size_part = 0\<rparr>"
      "length crtbuf = 5 * ?K + 1" "hd crtbuf = 0x05"
      using rsa_private_one_record [of rsa p q dp dq qi "BN_num_bytes n"] by blast
    with pub enc K unat_of_nat_u32 [of "5 * ?K + 1"]
    show "\<exists>pk c. gpk_encode_rsa_key rsa info = Inr pk \<and> bytes pk = BN_num_bytes n
              \<and> components (private_part pk) = [c] \<and> tag c = 0x05 \<and> hd (data c) = 0x05
              \<and> unat (size_comp c) = 5 * (bytes pk div 2) + 1
              \<and> length (data c) = 5 * (bytes pk div 2) + 1"
      by simp
  next
    assume a: "rsa_p rsa = Some p \<and> rsa_q rsa = Some q \<and> rsa_dmp1 rsa = Some dp
        \<and> rsa_dmq1 rsa = Some dq \<and> rsa_iqmp rsa = Some qi
        \<and> BN_num_bytes p \<le> BN_num_bytes n div 2 \<and> BN_num_bytes q \<le> BN_num_bytes n div 2
        \<and> BN_num_bytes dp \<le> BN_num_bytes n div 2 \<and> BN_num_bytes dq \<le> BN_num_bytes n div 2
        \<and> BN_num_bytes qi \<le> BN_num_bytes n div 2"
      and k: "\<not> 5 * (BN_num_bytes n div 2) < 256"
    have "\<exists>priv. gpk_encode_rsa_private rsa (BN_num_bytes n) = Inr priv
         \<and> map tag (components priv) = [0x51, 0x52, 0x53, 0x54, 0x55]
         \<and> (\<forall>c \<in> set (components priv).
               size_comp c = of_nat (?K + 1) \<and> length (data c) = ?K + 1)"
      by (rule rsa_private_five_records [of rsa p q dp dq qi]) (use a k n in simp_all)
    then obtain priv where
      "gpk_encode_rsa_private rsa (BN_num_bytes n) = Inr priv"
      "map tag (components priv) = [0x51, 0x52, 0x53, 0x54, 0x55]"
      "\<forall>c \<in> set (components priv).
               size_comp c = of_nat (?K + 1) \<and> length (data c) = ?K + 1"
      by (elim exE conjE)
    with pub enc K unat_of_nat_u32 [of "?K + 1"]
    show "\<exists>pk. gpk_encode_rsa_key rsa info = Inr pk \<and> bytes pk = BN_num_bytes n
              \<and> map tag (components (private_part pk)) = [0x51, 0x52, 0x53, 0x54, 0x55]
              \<and> (\<forall>c \<in> set (components (private_part pk)).
                    unat (size_comp c) = bytes pk div 2 + 1
                    \<and> length (data c) = bytes pk div 2 + 1)"
      by simp
  qed
qed

text \<open>
  C3, as stated, fails: the encoder aborts on a failed \<^verbatim>\<open>assert\<close> of \<^verbatim>\<open>gpk_bn2bin\<close>
  for the RSA key of 1024 bits whose prime \<open>p\<close> has 65 bytes (more than \<open>bytes / 2 = 64\<close>),
  and for the RSA key of 4096 bits (its modulus has more than 256 bytes).  Both keys
  have the exponent 65537 and all five CRT numbers, so that five components tagged
  0x51 to 0x55 were to be emitted.
\<close>

theorem gpk_encode_rsa_key_aborts:
  "rsa_e rsa_1024_unbalanced = Some 65537
   \<and> BN_num_bytes (the (rsa_n rsa_1024_unbalanced)) = 128
   \<and> rsa_p rsa_1024_unbalanced \<noteq> None \<and> rsa_q rsa_1024_unbalanced \<noteq> None
   \<and> rsa_dmp1 rsa_1024_unbalanced \<noteq> None \<and> rsa_dmq1 rsa_1024_unbalanced \<noteq> None
   \<and> rsa_iqmp rsa_1024_unbalanced \<noteq> None
   \<and> gpk_encode_rsa_key rsa_1024_unbalanced \<lparr>usage_info = 0\<rparr> = Inl ASSERTION_FAILED
   \<and> rsa_e rsa_4096 = Some 65537
   \<and> BN_num_bytes (the (rsa_n rsa_4096)) = 512
   \<and> rsa_p rsa_4096 \<noteq> None \<and> rsa_q rsa_4096 \<noteq> None \<and> rsa_dmp1 rsa_4096 \<noteq> None
   \<and> rsa_dmq1 rsa_4096 \<noteq> None \<and> rsa_iqmp rsa_4096 \<noteq> None
   \<and> gpk_encode_rsa_key rsa_4096 \<lparr>usage_info = 0\<rparr> = Inl ASSERTION_FAILED"
proof -
  have n1: "BN_num_bytes (the (rsa_n rsa_1024_unbalanced)) = 128"
    using BN_num_bytes_eq [of 127 "the (rsa_n rsa_1024_unbalanced)"]
    by (simp add: rsa_1024_unbalanced_def)
  have p1: "\<not> BN_num_bytes (the (rsa_p rsa_1024_unbalanced)) \<le> 64"
    by (simp add: rsa_1024_unbalanced_def BN_num_bytes_le)
  have p1': "BN_num_bytes (the (rsa_p rsa_1024_unbalanced)) \<le> 256"
    by (simp add: rsa_1024_unbalanced_def BN_num_bytes_le)
  have "gpk_encode_rsa_private rsa_1024_unbalanced 128 = Inl ASSERTION_FAILED"
    using p1 p1'
    by (simp add: gpk_encode_rsa_private_def gpk_add_bignum_def gpk_bn2bin_def Let_def
        empty_part_def BN_num_bytes_def [symmetric]) (simp add: rsa_1024_unbalanced_def)
  then have e1: "gpk_encode_rsa_key rsa_1024_unbalanced \<lparr>usage_info = 0\<rparr> = Inl ASSERTION_FAILED"
    using n1 rsa_public_part [of rsa_1024_unbalanced "the (rsa_n rsa_1024_unbalanced)"]
    by (simp add: rsa_1024_unbalanced_def)
  have n2: "BN_num_bytes (the (rsa_n rsa_4096)) = 512"
    using BN_num_bytes_eq [of 511 "the (rsa_n rsa_4096)"]
    by (simp add: rsa_4096_def)
  then have "gpk_add_bignum empty_part 0x01 (the (rsa_n rsa_4096)) 0 = Inl ASSERTION_FAILED"
    by (simp add: gpk_add_bignum_def gpk_bn2bin_def Let_def empty_part_def)
  then have e2: "gpk_encode_rsa_key rsa_4096 \<lparr>usage_info = 0\<rparr> = Inl ASSERTION_FAILED"
    by (simp add: gpk_encode_rsa_key_def BN_is_word_def RSA_F4_def rsa_4096_def)
  show ?thesis
    using n1 e1 n2 e2 by (simp add: rsa_1024_unbalanced_def rsa_4096_def)
qed

subsection \<open>Storing a DSA key\<close>

lemma dsa_512_encoded:
  "gpk_encode_dsa_key dsa_512 \<lparr>usage_info = 0\<rparr> =
     Inr \<lparr>algo = SC_ALGORITHM_RSA, usage = 0,
          public_part = \<lparr>components =
            [\<lparr>tag = 0x09, data = 0x09 # rev (BN_bn2bin (the (dsa_p dsa_512))), size_comp = 65\<rparr>,
             \<lparr>tag = 0x0a, data = 0x0a # rev (BN_bn2bin (the (dsa_q dsa_512))), size_comp = 21\<rparr>,
             \<lparr>tag = 0x0b, data = 0x0b # rev (BN_bn2bin (the (dsa_g dsa_512))), size_comp = 65\<rparr>,
             \<lparr>tag = 0x0c, data = 0x0c # rev (BN_bn2bin (the (dsa_pub_key dsa_512))), size_comp = 65\<rparr>],
            size_part = 0\<rparr>,
          private_part = \<lparr>components =
            [\<lparr>tag = 0x0d, data = 0x0d # rev (BN_bn2bin (the (dsa_priv_key dsa_512))), size_comp = 21\<rparr>],
            size_part = 0\<rparr>,
          bits = 512, bytes = 64\<rparr>"
proof -
  have b: "BN_num_bytes (the (dsa_p dsa_512)) = 64" "BN_num_bytes (the (dsa_q dsa_512)) = 20"
    "BN_num_bytes (the (dsa_g dsa_512)) = 64" "BN_num_bytes (the (dsa_pub_key dsa_512)) = 64"
    "BN_num_bytes (the (dsa_priv_key dsa_512)) = 20"
    using BN_num_bytes_eq [of 63 "the (dsa_p dsa_512)"] BN_num_bytes_eq [of 19 "the (dsa_q dsa_512)"]
      BN_num_bytes_eq [of 63 "the (dsa_g dsa_512)"] BN_num_bytes_eq [of 63 "the (dsa_pub_key dsa_512)"]
      BN_num_bytes_eq [of 19 "the (dsa_priv_key dsa_512)"]
    by (simp_all add: dsa_512_def)
  have s: "dsa_p dsa_512 \<noteq> None" "dsa_q dsa_512 \<noteq> None" "dsa_g dsa_512 \<noteq> None"
   "dsa_pub_key dsa_512 \<noteq> None" "dsa_priv_key dsa_512 \<noteq> None"
    by (simp_all add: dsa_512_def)
  show ?thesis
    using b s by (simp add: gpk_encode_dsa_key_def gpk_add_bignum_0 empty_part_def)
qed

lemma replicate_7: "replicate 7 x = [x, x, x, x, x, x, x]"
  by (simp add: numeral_eq_Suc)

lemma sysrec_rsa_512:
  assumes "map method_acl (acl file SC_AC_OP_CRYPTO) = [SC_AC_NONE]"
  shows "gpk_sysrec file SC_ALGORITHM_RSA 512 = Inr [0, 0, 0, 0, 0, 0x00, 0xFF]"
proof -
  from assms obtain a where "acl file SC_AC_OP_CRYPTO = [a]" "method_acl a = SC_AC_NONE"
    by auto
  then show ?thesis
    by (simp add: gpk_sysrec_def gpk_pkfile_keybits_def gpk_pkfile_keyalgo_def
      sc_file_get_acl_entry_def replicate_7)
qed

lemma gpk_encode_dsa_key_algo:
  "gpk_encode_dsa_key dsa info = Inr pk \<Longrightarrow> algo pk = SC_ALGORITHM_RSA"
  by (auto simp: gpk_encode_dsa_key_def Let_def split: if_splits sum.splits)

text \<open>
  C1 does not hold of the code: \<^verbatim>\<open>gpk_encode_dsa_key\<close> stores \<open>SC_ALGORITHM_RSA\<close> in
  \<^verbatim>\<open>p->algo\<close>, and \<^verbatim>\<open>gpk_store_pk\<close> passes it on to \<^verbatim>\<open>gpk_pkfile_init_public\<close>.  For
  the DSA key of 512 bits, on a card that accepts every operation and has no record 1
  yet, the key is stored successfully and the system record appended as record 1 is
  \<open>00 00 00 00 00 00 FF\<close>: its algorithm byte is 0x00, not 0x01.
\<close>

theorem gpk_store_pk_dsa_sysrec:
  "\<exists>pk c. gpk_encode_dsa_key dsa_512 \<lparr>usage_info = 0\<rparr> = Inr pk
     \<and> algo pk = SC_ALGORITHM_RSA
     \<and> gpk_store_pk profile_example accepting_card key_file_example pk = (Inr 0, c)
     \<and> fst (log c ! 2) = ReadRecord 1
     \<and> fst (log c ! 3) = AppendRecord [0, 0, 0, 0, 0, 0x00, 0xFF]"
proof -
  have x: "length (BN_bn2bin (the (dsa_priv_key dsa_512))) = 20"
    using BN_num_bytes_eq [of 19 "the (dsa_priv_key dsa_512)"]
    by (simp add: dsa_512_def BN_num_bytes_def)
  show ?thesis
    using x
    apply (simp add: dsa_512_encoded)
    apply (simp add: gpk_store_pk_def gpk_compute_publen_def gpk_compute_privlen_def
      gpk_pkfile_create_def sc_select_file_def accepting_card_def
      sc_pkcs15init_authenticate_def card_op_def gpk_pkfile_init_public_def
      sysrec_rsa_512
      key_file_example_def sc_read_record_def sc_append_record_def
      gpk_pkfile_update_public_def update_public_scan.simps gpk_pkfile_init_private_def
      gpk_pkfile_update_private_def profile_example_def sc_verify_def
      gpk_pkfile_load_private_def payload_def Let_def)
    done
qed

subsection \<open>The RSA encoder on the example keys\<close>

theorem gpk_encode_rsa_key_private_witness:
  "gpk_encode_rsa_key rsa_1024_public \<lparr>usage_info = 0\<rparr> = Inl SC_ERROR_INVALID_ARGUMENTS
   \<and> (\<exists>pk. gpk_encode_rsa_key rsa_1024_no_crt \<lparr>usage_info = 0\<rparr> = Inr pk
         \<and> map tag (components (private_part pk)) = [0x04])
   \<and> (\<exists>pk. gpk_encode_rsa_key rsa_512 \<lparr>usage_info = 0\<rparr> = Inr pk
         \<and> map tag (components (private_part pk)) = [0x05]
         \<and> map (\<lambda>c. unat (size_comp c)) (components (private_part pk)) = [161])
   \<and> (\<exists>pk. gpk_encode_rsa_key rsa_1024 \<lparr>usage_info = 0\<rparr> = Inr pk
         \<and> map tag (components (private_part pk)) = [0x51, 0x52, 0x53, 0x54, 0x55]
         \<and> (\<forall>c \<in> set (components (private_part pk)). unat (size_comp c) = 65))"
proof (intro conjI)
  have n: "BN_num_bytes (the (rsa_n rsa_1024_public)) = 128"
    using BN_num_bytes_eq [of 127 "the (rsa_n rsa_1024_public)"]
    by (simp add: rsa_1024_public_def)
  show "gpk_encode_rsa_key rsa_1024_public \<lparr>usage_info = 0\<rparr> = Inl SC_ERROR_INVALID_ARGUMENTS"
    using n gpk_encode_rsa_key_private [where rsa = rsa_1024_public
        and info = "\<lparr>usage_info = 0\<rparr>" and n = "the (rsa_n rsa_1024_public)"]
    by (simp add: rsa_1024_public_def)
next
  have n: "BN_num_bytes (the (rsa_n rsa_1024_no_crt)) = 128"
    using BN_num_bytes_eq [of 127 "the (rsa_n rsa_1024_no_crt)"]
    by (simp add: rsa_1024_no_crt_def)
  have d: "BN_num_bytes (the (rsa_d rsa_1024_no_crt)) \<le> 256"
    by (simp add: rsa_1024_no_crt_def BN_num_bytes_le)
  have "\<exists>pk. gpk_encode_rsa_key rsa_1024_no_crt \<lparr>usage_info = 0\<rparr> = Inr pk
           \<and> components (private_part pk) =
               [\<lparr>tag = 0x04, data = 0x04 # rev (BN_bn2bin (the (rsa_d rsa_1024_no_crt))),
                 size_comp = of_nat (BN_num_bytes (the (rsa_d rsa_1024_no_crt)) + 1)\<rparr>]"
    using n d gpk_encode_rsa_key_private [where rsa = rsa_1024_no_crt
        and info = "\<lparr>usage_info = 0\<rparr>" and n = "the (rsa_n rsa_1024_no_crt)"
        and d = "the (rsa_d rsa_1024_no_crt)"]
    by (simp add: rsa_1024_no_crt_def)
  then show "\<exists>pk. gpk_encode_rsa_key rsa_1024_no_crt \<lparr>usage_info = 0\<rparr> = Inr pk
         \<and> map tag (components (private_part pk)) = [0x04]"
    by auto
next
  have n: "BN_num_bytes (the (rsa_n rsa_512)) = 64"
    using BN_num_bytes_eq [of 63 "the (rsa_n rsa_512)"]
    by (simp add: rsa_512_def)
  have f: "BN_num_bytes (the (rsa_p rsa_512)) \<le> 32" "BN_num_bytes (the (rsa_q rsa_512)) \<le> 32"
    "BN_num_bytes (the (rsa_dmp1 rsa_512)) \<le> 32" "BN_num_bytes (the (rsa_dmq1 rsa_512)) \<le> 32"
    "BN_num_bytes (the (rsa_iqmp rsa_512)) \<le> 32"
    by (simp_all add: rsa_512_def BN_num_bytes_le)
  have "\<exists>pk c. gpk_encode_rsa_key rsa_512 \<lparr>usage_info = 0\<rparr> = Inr pk \<and> bytes pk = 64
              \<and> components (private_part pk) = [c] \<and> tag c = 0x05 \<and> hd (data c) = 0x05
              \<and> unat (size_comp c) = 5 * (bytes pk div 2) + 1
              \<and> length (data c) = 5 * (bytes pk div 2) + 1"
    using n f gpk_encode_rsa_key_private [where rsa = rsa_512
        and info = "\<lparr>usage_info = 0\<rparr>" and n = "the (rsa_n rsa_512)"
        and p = "the (rsa_p rsa_512)" and q = "the (rsa_q rsa_512)"
        and dp = "the (rsa_dmp1 rsa_512)" and dq = "the (rsa_dmq1 rsa_512)"
        and qi = "the (rsa_iqmp rsa_512)"]
    by (simp add: rsa_512_def)
  then show "\<exists>pk. gpk_encode_rsa_key rsa_512 \<lparr>usage_info = 0\<rparr> = Inr pk
         \<and> map tag (components (private_part pk)) = [0x05]
         \<and> map (\<lambda>c. unat (size_comp c)) (components (private_part pk)) = [161]"
    by auto
next
  have n: "BN_num_bytes (the (rsa_n rsa_1024)) = 128"
    using BN_num_bytes_eq [of 127 "the (rsa_n rsa_1024)"]
    by (simp add: rsa_1024_def)
  have f: "BN_num_bytes (the (rsa_p rsa_1024)) \<le> 64" "BN_num_bytes (the (rsa_q rsa_1024)) \<le> 64"
    "BN_num_bytes (the (rsa_dmp1 rsa_1024)) \<le> 64" "BN_num_bytes (the (rsa_dmq1 rsa_1024)) \<le> 64"
    "BN_num_bytes (the (rsa_iqmp rsa_1024)) \<le> 64"
    by (simp_all add: rsa_1024_def BN_num_bytes_le)
  have "\<exists>pk. gpk_encode_rsa_key rsa_1024 \<lparr>usage_info = 0\<rparr> = Inr pk \<and> bytes pk = 128
              \<and> map tag (components (private_part pk)) = [0x51, 0x52, 0x53, 0x54, 0x55]
              \<and> (\<forall>c \<in> set (components (private_part pk)).
                    unat (size_comp c) = bytes pk div 2 + 1
                    \<and> length (data c) = bytes pk div 2 + 1)"
    using n f gpk_encode_rsa_key_private [where rsa = rsa_1024
        and info = "\<lparr>usage_info = 0\<rparr>" and n = "the (rsa_n rsa_1024)"
        and p = "the (rsa_p rsa_1024)" and q = "the (rsa_q rsa_1024)"
        and dp = "the (rsa_dmp1 rsa_1024)" and dq = "the (rsa_dmq1 rsa_1024)"
        and qi = "the (rsa_iqmp rsa_1024)"]
    by (simp add: rsa_1024_def)
  then show "\<exists>pk. gpk_encode_rsa_key rsa_1024 \<lparr>usage_info = 0\<rparr> = Inr pk
         \<and> map tag (components (private_part pk)) = [0x51, 0x52, 0x53, 0x54, 0x55]
         \<and> (\<forall>c \<in> set (components (private_part pk)). unat (size_comp c) = 65)"
    by auto
qed

subsection \<open>The system record\<close>

lemma length_sysrec_pins:
  "sysrec_pins entries npins sysrec = Inr sysrec' \<Longrightarrow> length sysrec' = length sysrec"
  by (induction entries npins sysrec rule: sysrec_pins.induct) (auto split: if_splits)

lemma length_gpk_sysrec: "gpk_sysrec file a nbits = Inr sysrec \<Longrightarrow> length sysrec = 7"
  by (auto simp: gpk_sysrec_def split: sum.splits dest!: length_sysrec_pins)

text \<open>
  C8: once the system record is set up, \<^verbatim>\<open>gpk_pkfile_init_public\<close> reads record 1.  When
  the read succeeds and the record is not exactly 7 bytes long or its first byte is not
  zero, it fails with \<open>SC_ERROR_OBJECT_NOT_VALID\<close> and writes nothing; when the record
  has 7 bytes and first byte zero, the 7 bytes of the system record are written by
  \<^verbatim>\<open>sc_update_record\<close> on record 1; when the read fails, they are written by
  \<^verbatim>\<open>sc_append_record\<close>.  The result is that of the write.
\<close>

theorem gpk_pkfile_init_public_record_1:
  "gpk_sysrec kf a nbits = Inr sysrec \<longrightarrow>
     length sysrec = 7
   \<and> (read_reply c (log c) 1 = Inr buf \<and> (length buf \<noteq> 7 \<or> hd buf \<noteq> 0) \<longrightarrow>
        gpk_pkfile_init_public c kf a nbits usg =
          (Inl SC_ERROR_OBJECT_NOT_VALID,
           c\<lparr>log := log c @ [(ReadRecord 1, Inr (length (take 256 buf)))]\<rparr>))
   \<and> (read_reply c (log c) 1 = Inr buf \<and> length buf = 7 \<and> hd buf = 0 \<longrightarrow>
        gpk_pkfile_init_public c kf a nbits usg =
          (reply c (log c @ [(ReadRecord 1, Inr 7)]) (UpdateRecord 1 sysrec),
           c\<lparr>log := log c @ [(ReadRecord 1, Inr 7),
                (UpdateRecord 1 sysrec,
                 reply c (log c @ [(ReadRecord 1, Inr 7)]) (UpdateRecord 1 sysrec))]\<rparr>))
   \<and> (read_reply c (log c) 1 = Inl err \<longrightarrow>
        gpk_pkfile_init_public c kf a nbits usg =
          (reply c (log c @ [(ReadRecord 1, Inl err)]) (AppendRecord sysrec),
           c\<lparr>log := log c @ [(ReadRecord 1, Inl err),
                (AppendRecord sysrec,
                 reply c (log c @ [(ReadRecord 1, Inl err)]) (AppendRecord sysrec))]\<rparr>))"
proof (intro impI conjI)
  assume s: "gpk_sysrec kf a nbits = Inr sysrec"
  then show "length sysrec = 7" by (rule length_gpk_sysrec)
next
  assume s: "gpk_sysrec kf a nbits = Inr sysrec"
    and r: "read_reply c (log c) 1 = Inr buf \<and> (length buf \<noteq> 7 \<or> hd buf \<noteq> 0)"
  then have "length (take 256 buf) \<noteq> 7 \<or> hd (take 256 buf) \<noteq> 0"
    by (cases buf) auto
  with s r show "gpk_pkfile_init_public c kf a nbits usg =
          (Inl SC_ERROR_OBJECT_NOT_VALID,
           c\<lparr>log := log c @ [(ReadRecord 1, Inr (length (take 256 buf)))]\<rparr>)"
    by (simp add: gpk_pkfile_init_public_def sc_read_record_def)
next
  assume s: "gpk_sysrec kf a nbits = Inr sysrec"
    and r: "read_reply c (log c) 1 = Inr buf \<and> length buf = 7 \<and> hd buf = 0"
  then have "take 256 buf = buf" by simp
  with s r show "gpk_pkfile_init_public c kf a nbits usg =
          (reply c (log c @ [(ReadRecord 1, Inr 7)]) (UpdateRecord 1 sysrec),
           c\<lparr>log := log c @ [(ReadRecord 1, Inr 7),
                (UpdateRecord 1 sysrec,
                 reply c (log c @ [(ReadRecord 1, Inr 7)]) (UpdateRecord 1 sysrec))]\<rparr>)"
    by (simp add: gpk_pkfile_init_public_def sc_read_record_def sc_update_record_def
        card_op_def Let_def)
next
  assume s: "gpk_sysrec kf a nbits = Inr sysrec"
    and r: "read_reply c (log c) 1 = Inl err"
  then show "gpk_pkfile_init_public c kf a nbits usg =
          (reply c (log c @ [(ReadRecord 1, Inl err)]) (AppendRecord sysrec),
           c\<lparr>log := log c @ [(ReadRecord 1, Inl err),
                (AppendRecord sysrec,
                 reply c (log c @ [(ReadRecord 1, Inl err)]) (AppendRecord sysrec))]\<rparr>)"
    by (simp add: gpk_pkfile_init_public_def sc_read_record_def sc_append_record_def
        card_op_def Let_def)
qed

theorem gpk_pkfile_init_public_record_1_witness:
  "gpk_pkfile_init_public (accepting_card\<lparr>read_reply := \<lambda>_ _. Inr [1, 0, 0, 0, 0, 0, 0xFE]\<rparr>)
       key_file_example SC_ALGORITHM_RSA 512 0 =
     (Inl SC_ERROR_OBJECT_NOT_VALID,
      accepting_card\<lparr>read_reply := \<lambda>_ _. Inr [1, 0, 0, 0, 0, 0, 0xFE],
        log := [(ReadRecord 1, Inr 7)]\<rparr>)
   \<and> gpk_pkfile_init_public (accepting_card\<lparr>read_reply := \<lambda>_ _. Inr [0, 0x11, 0, 0, 0, 0, 0xEE]\<rparr>)
       key_file_example SC_ALGORITHM_RSA 512 0 =
     (Inr 0,
      accepting_card\<lparr>read_reply := \<lambda>_ _. Inr [0, 0x11, 0, 0, 0, 0, 0xEE],
        log := [(ReadRecord 1, Inr 7), (UpdateRecord 1 [0, 0, 0, 0, 0, 0, 0xFF], Inr 0)]\<rparr>)
   \<and> gpk_pkfile_init_public accepting_card key_file_example SC_ALGORITHM_RSA 512 0 =
     (Inr 0,
      accepting_card\<lparr>log := [(ReadRecord 1, Inl (SC_ERROR_OTHER (- 1))),
        (AppendRecord [0, 0, 0, 0, 0, 0, 0xFF], Inr 0)]\<rparr>)"
proof -
  have s: "gpk_sysrec key_file_example SC_ALGORITHM_RSA 512 = Inr [0, 0, 0, 0, 0, 0x00, 0xFF]"
    by (rule sysrec_rsa_512) (simp add: key_file_example_def)
  show ?thesis
    using s
      gpk_pkfile_init_public_record_1 [where kf = key_file_example and a = SC_ALGORITHM_RSA
        and nbits = 512 and sysrec = "[0, 0, 0, 0, 0, 0x00, 0xFF]" and usg = 0
        and c = "accepting_card\<lparr>read_reply := \<lambda>_ _. Inr [1, 0, 0, 0, 0, 0, 0xFE]\<rparr>"
        and buf = "[1, 0, 0, 0, 0, 0, 0xFE]"]
      gpk_pkfile_init_public_record_1 [where kf = key_file_example and a = SC_ALGORITHM_RSA
        and nbits = 512 and sysrec = "[0, 0, 0, 0, 0, 0x00, 0xFF]" and usg = 0
        and c = "accepting_card\<lparr>read_reply := \<lambda>_ _. Inr [0, 0x11, 0, 0, 0, 0, 0xEE]\<rparr>"
        and buf = "[0, 0x11, 0, 0, 0, 0, 0xEE]"]
      gpk_pkfile_init_public_record_1 [where kf = key_file_example and a = SC_ALGORITHM_RSA
        and nbits = 512 and sysrec = "[0, 0, 0, 0, 0, 0x00, 0xFF]" and usg = 0
        and c = accepting_card and err = "SC_ERROR_OTHER (- 1)"]
    by (simp add: accepting_card_def)
qed

subsection \<open>The PIN file\<close>

lemma gpk_pin_table_default:
  "gpk_pin_table 7 3 8 =
     Inr [7, 0, 0x09, 0xF1, 0, 0, 0, 0,
          7, 0, 0x0A, 0xF2, 0, 0, 0, 0,
          7, 0, 0x0B, 0xF3, 0, 0, 0, 0,
          7, 0, 0x0C, 0xF4, 0, 0, 0, 0,
          7, 0, 0x0D, 0xF5, 0, 0, 0, 0,
          7, 0, 0x0E, 0xF6, 0, 0, 0, 0,
          7, 0, 0x0F, 0xF7, 0, 0, 0, 0,
          7, 0, 0x00, 0xF8, 0, 0, 0, 0]"
  by code_simp

text \<open>
  C2 does not hold of the code: the test \<^verbatim>\<open>(i % 1) == 0\<close> is true of every row, so the
  branch commented "This is the PUK" is never taken.  With the default retry counts
  (PIN 7, PUK 3) and the default size of 64 bytes, \<^verbatim>\<open>gpk_init_pinfile\<close> succeeds on a card
  that accepts every operation and writes a table whose odd rows 1, 3, 5 and 7 start
  with the PIN retry count 7, not the PUK retry count 3, and whose rows 1, 3 and 5
  carry the pointers 0x0A, 0x0C and 0x0E in byte 2.
\<close>

theorem gpk_init_pinfile_rows:
  "\<exists>c h. gpk_init_pinfile profile_example accepting_card (store_example pin_file_example) 0
           = (Inr 0, c, h)
     \<and> fst (log c ! 2) =
         WriteBinary 0
           [7, 0, 0x09, 0xF1, 0, 0, 0, 0,
            7, 0, 0x0A, 0xF2, 0, 0, 0, 0,
            7, 0, 0x0B, 0xF3, 0, 0, 0, 0,
            7, 0, 0x0C, 0xF4, 0, 0, 0, 0,
            7, 0, 0x0D, 0xF5, 0, 0, 0, 0,
            7, 0, 0x0E, 0xF6, 0, 0, 0, 0,
            7, 0, 0x0F, 0xF7, 0, 0, 0, 0,
            7, 0, 0x00, 0xF8, 0, 0, 0, 0]"
  by (simp add: gpk_init_pinfile_def profile_example_def store_example_def sc_file_dup_def
      pin_file_example_def sc_file_get_acl_entry_def sc_file_add_acl_entry_def GPK_MAX_PINS_def
      sc_pkcs15init_create_file_def card_op_def accepting_card_def sc_select_file_def
      gpk_pin_table_default [unfolded GPK_MAX_PINS_def] sc_write_binary_def
      gpk_lock_pinfile_def sc_pkcs15init_authenticate_def gpk_lock_def key_file_example_def
      sc_file_free_def gpk_init_pinfile_write_def Let_def)

lemma log_card_op: "card_op c ev = (r, c') \<Longrightarrow> log c' = log c @ [(ev, r)]"
  by (auto simp: card_op_def Let_def)

lemma log_sc_select_file: "sc_select_file c p = (r, c') \<Longrightarrow> \<exists>rp. log c' = log c @ [(SelectFile p, rp)]"
  by (auto simp: sc_select_file_def split: sum.splits)

lemma log_gpk_lock_pinfile: "gpk_lock_pinfile c pf = (r, c') \<Longrightarrow> \<exists>evs. log c' = log c @ evs"
  by (auto simp: gpk_lock_pinfile_def Let_def gpk_lock_def sc_pkcs15init_authenticate_def
      split: sum.splits prod.splits dest!: log_card_op log_sc_select_file)

lemma log_gpk_init_pinfile_write:
  assumes "gpk_init_pinfile_write c pf pa pu = (r, c')"
  shows "\<exists>rp evs. log c' = log c @ (CreateFile pf, rp) # evs"
proof -
  obtain r1 c1 where cf: "sc_pkcs15init_create_file c pf = (r1, c1)"
    by (cases "sc_pkcs15init_create_file c pf")
  then have l1: "log c1 = log c @ [(CreateFile pf, r1)]"
    by (simp add: sc_pkcs15init_create_file_def log_card_op)
  show ?thesis
  proof (cases r1)
    case (Inl e)
    with assms cf l1 show ?thesis
      by (auto simp: gpk_init_pinfile_write_def)
  next
    case (Inr v)
    obtain r2 c2 where sel: "sc_select_file c1 (path pf) = (r2, c2)"
      by (cases "sc_select_file c1 (path pf)")
    then obtain rp2 where l2: "log c2 = log c1 @ [(SelectFile (path pf), rp2)]"
      using log_sc_select_file by blast
    show ?thesis
    proof (cases r2)
      case (Inl e)
      with assms cf sel \<open>r1 = Inr v\<close> l1 l2 show ?thesis
        by (auto simp: gpk_init_pinfile_write_def)
    next
      case r2: (Inr v2)
      show ?thesis
      proof (cases "gpk_pin_table pa pu (size_file pf div 8)")
        case (Inl e)
        with assms cf sel \<open>r1 = Inr v\<close> r2 l1 l2 show ?thesis
          by (auto simp: gpk_init_pinfile_write_def Let_def)
      next
        case tb: (Inr buffer)
        obtain r3 c3 where wr:
          "sc_write_binary c2 0 (take (size_file pf div 8 * 8) buffer) = (r3, c3)"
          by (cases "sc_write_binary c2 0 (take (size_file pf div 8 * 8) buffer)")
        then have l3: "\<exists>ev. log c3 = log c2 @ [ev]"
          by (auto simp: sc_write_binary_def dest: log_card_op)
        show ?thesis
        proof (cases r3)
          case (Inl e)
          with assms cf sel \<open>r1 = Inr v\<close> r2 tb wr l1 l2 l3 show ?thesis
            by (auto simp: gpk_init_pinfile_write_def Let_def)
        next
          case r3: (Inr v3)
          with assms cf sel \<open>r1 = Inr v\<close> r2 tb wr
          have "gpk_lock_pinfile c3 pf = (r, c')"
            by (simp add: gpk_init_pinfile_write_def Let_def)
          then obtain evs where "log c' = log c3 @ evs"
            using log_gpk_lock_pinfile by blast
          with l1 l2 l3 show ?thesis by auto
        qed
      qed
    qed
  qed
qed

text \<open>
  C9: let the caller's file structure be allocated at \<open>fp\<close> (the next free address being
  unused), its WRITE ACL starting with the entry \<open>a\<close>.  If the method of \<open>a\<close> is not
  NEVER, \<^verbatim>\<open>gpk_init_pinfile\<close> fails with \<open>SC_ERROR_INVALID_ARGUMENTS\<close>, the card is
  untouched (no operation was issued) and the caller's file is unchanged.  If it is
  NEVER, the first card operation creates the working copy: the caller's file with
  the WRITE ACL replaced by NONE (and the default size when the size was 0); the
  caller's file is unchanged when the function returns.
\<close>

theorem gpk_init_pinfile_write_acl:
  "cells h fp = Some f \<and> sc_file_get_acl_entry f SC_AC_OP_WRITE = a # rest
     \<and> cells h (next_free h) = None \<longrightarrow>
   (method_acl a \<noteq> SC_AC_NEVER \<longrightarrow>
      (\<exists>h'. gpk_init_pinfile profile c h fp = (Inl SC_ERROR_INVALID_ARGUMENTS, c, h')
            \<and> cells h' fp = Some f))
   \<and> (method_acl a = SC_AC_NEVER \<longrightarrow>
      (\<exists>r c' h' rp evs. gpk_init_pinfile profile c h fp = (r, c', h')
          \<and> cells h' fp = Some f
          \<and> log c' = log c @
               (CreateFile
                 (f\<lparr>acl := (acl f)(SC_AC_OP_WRITE :=
                        [\<lparr>method_acl = SC_AC_NONE, key_ref = SC_AC_KEY_REF_NONE\<rparr>]),
                    size_file := (if size_file f = 0 then GPK_MAX_PINS * 8 else size_file f)\<rparr>),
                rp) # evs))"
proof (intro impI conjI)
  assume a: "cells h fp = Some f \<and> sc_file_get_acl_entry f SC_AC_OP_WRITE = a # rest
     \<and> cells h (next_free h) = None"
    and m: "method_acl a \<noteq> SC_AC_NEVER"
  from a have ne: "fp \<noteq> next_free h" by auto
  with a m show "\<exists>h'. gpk_init_pinfile profile c h fp = (Inl SC_ERROR_INVALID_ARGUMENTS, c, h')
            \<and> cells h' fp = Some f"
    by (simp add: gpk_init_pinfile_def sc_file_dup_def Let_def)
next
  assume a: "cells h fp = Some f \<and> sc_file_get_acl_entry f SC_AC_OP_WRITE = a # rest
     \<and> cells h (next_free h) = None"
    and m: "method_acl a = SC_AC_NEVER"
  from a have ne: "fp \<noteq> next_free h" by auto
  let ?pf = "f\<lparr>acl := (acl f)(SC_AC_OP_WRITE :=
                        [\<lparr>method_acl = SC_AC_NONE, key_ref = SC_AC_KEY_REF_NONE\<rparr>]),
                    size_file := (if size_file f = 0 then GPK_MAX_PINS * 8 else size_file f)\<rparr>"
  let ?pa = "if pin_attempts profile = 0 then 7 else pin_attempts profile"
  let ?pu = "if puk_attempts profile = 0 then 3 else puk_attempts profile"
  obtain r c' where w: "gpk_init_pinfile_write c ?pf ?pa ?pu = (r, c')"
    by (cases "gpk_init_pinfile_write c ?pf ?pa ?pu")
  then obtain rp evs where l: "log c' = log c @ (CreateFile ?pf, rp) # evs"
    using log_gpk_init_pinfile_write by blast
  have pf2: "(if size_file (sc_file_add_acl_entry f SC_AC_OP_WRITE SC_AC_NONE 0) = 0
       then (sc_file_add_acl_entry f SC_AC_OP_WRITE SC_AC_NONE 0)\<lparr>size_file := GPK_MAX_PINS * 8\<rparr>
       else sc_file_add_acl_entry f SC_AC_OP_WRITE SC_AC_NONE 0) = ?pf"
    by (simp add: sc_file_add_acl_entry_def)
  have "\<exists>h'. gpk_init_pinfile profile c h fp = (r, c', h') \<and> cells h' fp = Some f"
    using a m ne w
    by (simp add: gpk_init_pinfile_def sc_file_dup_def Let_def pf2 sc_file_free_def
        del: sc_file.simps split del: if_split)
  with l show "\<exists>r c' h' rp evs. gpk_init_pinfile profile c h fp = (r, c', h')
          \<and> cells h' fp = Some f
          \<and> log c' = log c @ (CreateFile ?pf, rp) # evs"
    by blast
qed

theorem gpk_init_pinfile_write_acl_witness:
  "(\<exists>h'. gpk_init_pinfile profile_example accepting_card (store_example pin_file_chv_example) 0
           = (Inl SC_ERROR_INVALID_ARGUMENTS, accepting_card, h')
         \<and> cells h' 0 = Some pin_file_chv_example)
   \<and> (\<exists>r c' h' rp evs.
         gpk_init_pinfile profile_example accepting_card (store_example pin_file_example) 0
           = (r, c', h')
         \<and> cells h' 0 = Some pin_file_example
         \<and> log c' =
             (CreateFile
               (pin_file_example\<lparr>acl := (acl pin_file_example)(SC_AC_OP_WRITE :=
                      [\<lparr>method_acl = SC_AC_NONE, key_ref = SC_AC_KEY_REF_NONE\<rparr>]),
                  size_file := 64\<rparr>), rp) # evs)"
  using gpk_init_pinfile_write_acl [where h = "store_example pin_file_chv_example" and fp = 0
      and f = pin_file_chv_example and a = "\<lparr>method_acl = SC_AC_CHV, key_ref = 1\<rparr>"
      and rest = "[]" and profile = profile_example and c = accepting_card]
    gpk_init_pinfile_write_acl [where h = "store_example pin_file_example" and fp = 0
      and f = pin_file_example and a = "\<lparr>method_acl = SC_AC_NEVER, key_ref = SC_AC_KEY_REF_NONE\<rparr>"
      and rest = "[]" and profile = profile_example and c = accepting_card]
  by (simp add: store_example_def sc_file_get_acl_entry_def pin_file_chv_example_def
      pin_file_example_def accepting_card_def GPK_MAX_PINS_def)

subsection \<open>Loading the private components\<close>

lemma xor_fold_fold: "xor_fold cks bs = fold (XOR) bs cks"
  by (induction bs arbitrary: cks) (simp_all add: xor.commute)

lemma pad_loop_eq: "pad_loop blk = blk @ replicate ((8 - length blk mod 8) mod 8) 0"
proof (induction blk rule: pad_loop.induct)
  case (1 blk)
  show ?case
  proof (cases "length blk mod 8 = 0")
    case True
    then show ?thesis by (subst pad_loop.simps) (simp add: and_7_eq_mod_8)
  next
    case False
    then have "pad_loop blk = pad_loop (blk @ [0])"
      by (subst pad_loop.simps) (simp add: and_7_eq_mod_8)
    also have "\<dots> = (blk @ [0]) @ replicate ((8 - length (blk @ [0]) mod 8) mod 8) 0"
      using False 1 by (simp add: and_7_eq_mod_8)
    also have "\<dots> = blk @ replicate (Suc ((8 - Suc (length blk) mod 8) mod 8)) 0"
      by simp
    also have "Suc ((8 - Suc (length blk) mod 8) mod 8) = (8 - length blk mod 8) mod 8"
    proof -
      have "length blk mod 8 < 8" by simp
      then have "length blk mod 8 \<le> 7" by linarith
      with False show ?thesis by (simp add: mod_Suc; arith)
    qed
    finally show ?thesis .
  qed
qed

lemma round_8_eq: "((n::nat) + 7) div 8 * 8 = n + (8 - n mod 8) mod 8"
proof -
  define q r where "q = n div 8" and "r = n mod 8"
  have n: "n = q * 8 + r" and r: "r < 8"
    by (simp_all add: q_def r_def)
  have "(q * 8 + (r + 7)) div 8 = q + (r + 7) div 8"
    by simp
  moreover have "(r + 7) div 8 = (if r = 0 then 0 else 1)"
  proof (cases "r = 0")
    case True
    then show ?thesis by simp
  next
    case False
    have "(r + 7) div 8 = 1"
      by (rule div_nat_eqI) (use False r in simp_all)
    with False show ?thesis by simp
  qed
  ultimately have d: "(n + 7) div 8 = q + (if r = 0 then 0 else 1)"
    by (simp add: n add.assoc)
  have m: "(8 - r) mod 8 = (if r = 0 then 0 else 8 - r)"
    using r by simp
  have "(n + 7) div 8 * 8 = n + (8 - r) mod 8"
    unfolding d m using r by (simp add: n)
  then show ?thesis by (simp add: r_def)
qed

lemma round_8_ge: "(n::nat) \<le> (n + 7) div 8 * 8"
  using round_8_eq [of n] by simp


lemma round_up_8_diff: "round_up n 8 - n = (8 - n mod 8) mod 8"
proof -
  have "round_up n 8 = n + (8 - n mod 8) mod 8"
    using round_8_eq [of n] by (simp add: round_up_def add.commute)
  then show ?thesis by simp
qed

lemma pad_loop_spec:
  "pad_loop (dat @ [xor_fold 0xff dat]) = spec_private_block dat"
  using round_up_8_diff [of "length dat + 1"]
  by (simp add: pad_loop_eq spec_private_block_def xor_fold_fold)

lemma length_spec_private_block:
  "length (spec_private_block dat) = round_up (length dat + 1) 8"
proof -
  have "length dat + 1 \<le> round_up (length dat + 1) 8"
    using round_8_ge [of "length dat + 1"] by (simp add: round_up_def add.commute)
  then show ?thesis by (simp add: spec_private_block_def)
qed

lemma loop_too_small:
  "256 < size_comp pe + 8 \<Longrightarrow>
   update_private_loop c kf key (pe # rest) r0 = (Inl SC_ERROR_BUFFER_TOO_SMALL, c)"
  by simp

lemma loop_memcpy:
  "\<not> 256 < size_comp pe + 8 \<Longrightarrow> \<not> fits_buffer pe \<Longrightarrow>
   update_private_loop c kf key (pe # rest) r0 = (Inl UNDEFINED_BEHAVIOUR, c)"
  by (auto simp: fits_buffer_def)

lemma loop_fits:
  assumes "fits_buffer pe"
  shows "update_private_loop c kf key (pe # rest) r0 =
    (case reply c (log c) (Verify SC_AC_PRO 1 key) of
       Inl err \<Rightarrow> (Inl err, c\<lparr>log := log c @ [(Verify SC_AC_PRO 1 key, Inl err)]\<rparr>)
     | Inr v \<Rightarrow>
         (case reply c (log c @ [(Verify SC_AC_PRO 1 key, Inr v)])
                 (CardCtl_GPK_PKLOAD kf (spec_private_block (payload pe)) (size_comp pe)
                    (round_up (unat (size_comp pe) + 1) 8)) of
            Inl err \<Rightarrow>
              (Inl err, c\<lparr>log := log c @ [(Verify SC_AC_PRO 1 key, Inr v),
                 (CardCtl_GPK_PKLOAD kf (spec_private_block (payload pe)) (size_comp pe)
                    (round_up (unat (size_comp pe) + 1) 8), Inl err)]\<rparr>)
          | Inr r2 \<Rightarrow>
              update_private_loop
                (c\<lparr>log := log c @ [(Verify SC_AC_PRO 1 key, Inr v),
                 (CardCtl_GPK_PKLOAD kf (spec_private_block (payload pe)) (size_comp pe)
                    (round_up (unat (size_comp pe) + 1) 8), Inr r2)]\<rparr>)
                kf key rest r2))"
proof -
  have len: "length (payload pe) = unat (size_comp pe)"
    using assms by (simp add: fits_buffer_def payload_def)
  show ?thesis
    using assms
    by (simp add: fits_buffer_def sc_verify_def card_op_def gpk_pkfile_load_private_def
        Let_def pad_loop_spec length_spec_private_block len split: sum.splits)
qed

lemma all_ok_simps [simp]:
  "all_ok [] = True"
  "all_ok (p # evs) = (is_ok (snd p) \<and> all_ok evs)"
  by (simp_all add: all_ok_def)

lemma is_ok_simps [simp]: "is_ok (Inr v) = True" "is_ok (Inl err) = False"
  by (simp_all add: is_ok_def)

lemma not_all_ok_nonempty: "\<not> all_ok evs \<Longrightarrow> evs \<noteq> []"
  by auto

lemma post_nil: "private_loop_post key kf [] [] (Inr r0)"
  by (simp add: private_loop_post_def)

lemma post_stop:
  "\<not> fits_buffer pe \<Longrightarrow>
   private_loop_post key kf (pe # rest) []
     (Inl (if 256 < size_comp pe + 8 then SC_ERROR_BUFFER_TOO_SMALL else UNDEFINED_BEHAVIOUR))"
  by (simp add: private_loop_post_def)

lemma post_verify_failed:
  "private_loop_post key kf (pe # rest) [(Verify SC_AC_PRO 1 key, Inl err)] (Inl err)"
  by (simp add: private_loop_post_def)

lemma post_load_failed:
  "fits_buffer pe \<Longrightarrow>
   private_loop_post key kf (pe # rest)
     [(Verify SC_AC_PRO 1 key, Inr v),
      (CardCtl_GPK_PKLOAD kf (spec_private_block (payload pe)) (size_comp pe)
         (round_up (unat (size_comp pe) + 1) 8), Inl err)] (Inl err)"
  by (simp add: private_loop_post_def load_args_def)

lemma post_cons:
  assumes "fits_buffer pe" "private_loop_post key kf rest evs r"
  shows "private_loop_post key kf (pe # rest)
     ((Verify SC_AC_PRO 1 key, Inr v) #
      (CardCtl_GPK_PKLOAD kf (spec_private_block (payload pe)) (size_comp pe)
         (round_up (unat (size_comp pe) + 1) 8), Inr r2) # evs) r"
proof (cases "evs = []")
  case True
  with assms show ?thesis
    by (cases r) (simp_all add: private_loop_post_def load_args_def Let_def)
next
  case False
  with assms show ?thesis
    by (cases r) (auto simp: private_loop_post_def load_args_def Let_def)
qed

lemma loop_props:
  "update_private_loop c kf key comps r0 = (r, c') \<Longrightarrow>
   \<exists>evs. log c' = log c @ evs \<and> private_loop_post key kf comps evs r"
proof (induction comps arbitrary: c r0)
  case Nil
  then show ?case using post_nil by auto
next
  case (Cons pe rest)
  show ?case
  proof (cases "fits_buffer pe")
    case False
    then have "update_private_loop c kf key (pe # rest) r0 =
        (Inl (if 256 < size_comp pe + 8 then SC_ERROR_BUFFER_TOO_SMALL else UNDEFINED_BEHAVIOUR), c)"
      using loop_too_small [of pe c kf key rest r0] loop_memcpy [of pe c kf key rest r0]
      by (cases "256 < size_comp pe + 8") simp_all
    with Cons.prems post_stop [OF False, of key kf rest] show ?thesis by auto
  next
    case True
    note step = loop_fits [OF True, of c kf key rest r0]
    show ?thesis
    proof (cases "reply c (log c) (Verify SC_AC_PRO 1 key)")
      case (Inl err)
      with step Cons.prems post_verify_failed [of key kf pe rest err] show ?thesis by auto
    next
      case v: (Inr v)
      let ?L = "CardCtl_GPK_PKLOAD kf (spec_private_block (payload pe)) (size_comp pe)
                    (round_up (unat (size_comp pe) + 1) 8)"
      show ?thesis
      proof (cases "reply c (log c @ [(Verify SC_AC_PRO 1 key, Inr v)]) ?L")
        case (Inl err)
        with step v Cons.prems post_load_failed [OF True, of key kf rest v err] show ?thesis
          by auto
      next
        case l: (Inr r2)
        let ?c2 = "c\<lparr>log := log c @ [(Verify SC_AC_PRO 1 key, Inr v), (?L, Inr r2)]\<rparr>"
        from step v l Cons.prems have "update_private_loop ?c2 kf key rest r2 = (r, c')"
          by simp
        from Cons.IH [OF this] obtain evs where
          e: "log c' = log ?c2 @ evs" "private_loop_post key kf rest evs r"
          by blast
        from post_cons [OF True e(2), of v r2] e(1) show ?thesis by simp
      qed
    qed
  qed
qed

lemma log_eq_new_events:
  "log c' = log c @ evs \<Longrightarrow> new_events c c' = evs \<and> take (length (log c)) (log c') = log c"
  by (simp add: new_events_def)

text \<open>
  C4: when the profile yields no secure messaging key, \<^verbatim>\<open>gpk_pkfile_update_private\<close>
  fails with \<open>SC_ERROR_SECURITY_STATUS_NOT_SATISFIED\<close> and the card is untouched (no
  component is written).  Otherwise the log of the card is extended, and every
  load-private operation added to it comes immediately after a successful verification
  of that key, which the same iteration issued.
\<close>

theorem gpk_pkfile_update_private_verifies:
  "(secret profile SC_AC_PRO 1 = Inl err \<longrightarrow>
      gpk_pkfile_update_private profile c kf part =
        (Inl SC_ERROR_SECURITY_STATUS_NOT_SATISFIED, c))
   \<and> (secret profile SC_AC_PRO 1 = Inr (r0, key)
        \<and> gpk_pkfile_update_private profile c kf part = (r, c') \<longrightarrow>
      take (length (log c)) (log c') = log c
      \<and> verified_loads key False (new_events c c'))"
proof (intro conjI impI)
  assume "secret profile SC_AC_PRO 1 = Inl err"
  then show "gpk_pkfile_update_private profile c kf part =
        (Inl SC_ERROR_SECURITY_STATUS_NOT_SATISFIED, c)"
    by (simp add: gpk_pkfile_update_private_def)
next
  assume a: "secret profile SC_AC_PRO 1 = Inr (r0, key)
        \<and> gpk_pkfile_update_private profile c kf part = (r, c')"
  then have "update_private_loop c kf key (components part) r0 = (r, c')"
    by (auto simp: gpk_pkfile_update_private_def)
  then obtain evs where e: "log c' = log c @ evs"
    "private_loop_post key kf (components part) evs r"
    using loop_props by blast
  from e(1) show "take (length (log c)) (log c') = log c"
    by simp
  from e show "verified_loads key False (new_events c c')"
    by (simp add: private_loop_post_def Let_def new_events_def)
qed

text \<open>
  C5: with the secure messaging key at hand, the blocks handed to the load-private
  operation are, in order, those of the first \<open>k\<close> components (all of them when the
  result is a success): each is the payload of \<open>s\<close> bytes, the checksum byte (the XOR of
  0xFF and the payload bytes) and zero bytes up to \<open>round_up (s + 1) 8\<close> bytes, passed
  with the lengths \<open>s\<close> and \<open>round_up (s + 1) 8\<close>.  If the components before the \<open>j\<close>-th
  fit and the \<open>j\<close>-th has \<^verbatim>\<open>pe->size + 8 > sizeof(data)\<close> (the \<^verbatim>\<open>unsigned int\<close> sum of the
  source), then, unless a card operation failed before, the result is
  \<open>SC_ERROR_BUFFER_TOO_SMALL\<close> after exactly \<open>j\<close> loads.  Only the last operation added
  to the log can have failed, and then its error is the result: the first failing
  verify or load ends the loop.
\<close>

theorem gpk_pkfile_update_private_blocks:
  "secret profile SC_AC_PRO 1 = Inr (r0, key)
     \<and> gpk_pkfile_update_private profile c kf part = (r, c') \<longrightarrow>
   (\<exists>k \<le> length (components part).
       pkload_args (new_events c c') = map (load_args kf) (take k (components part))
       \<and> (\<forall>pe \<in> set (take k (components part)).
             length (payload pe) = unat (size_comp pe)
             \<and> length (spec_private_block (payload pe)) = round_up (unat (size_comp pe) + 1) 8)
       \<and> (is_ok r \<longrightarrow> k = length (components part)))
   \<and> (\<forall>j < length (components part).
         256 < size_comp (components part ! j) + 8
         \<and> (\<forall>i < j. fits_buffer (components part ! i))
         \<and> all_ok (new_events c c') \<longrightarrow>
         r = Inl SC_ERROR_BUFFER_TOO_SMALL \<and> length (pkload_args (new_events c c')) = j)
   \<and> all_ok (butlast (new_events c c'))
   \<and> (\<forall>e. \<not> all_ok (new_events c c') \<and> snd (last (new_events c c')) = Inl e \<longrightarrow> r = Inl e)
   \<and> (is_ok r \<longrightarrow> all_ok (new_events c c'))"
proof (intro impI)
  assume a: "secret profile SC_AC_PRO 1 = Inr (r0, key)
        \<and> gpk_pkfile_update_private profile c kf part = (r, c')"
  then have "update_private_loop c kf key (components part) r0 = (r, c')"
    by (auto simp: gpk_pkfile_update_private_def)
  then obtain evs where e: "log c' = log c @ evs"
    and post: "private_loop_post key kf (components part) evs r"
    using loop_props by blast
  from e have ne: "new_events c c' = evs"
    by (simp add: new_events_def)
  let ?comps = "components part"
  let ?k = "length (pkload_args evs)"
  from post have k: "?k \<le> length ?comps"
    and args: "pkload_args evs = map (load_args kf) (take ?k ?comps)"
    and fits: "list_all fits_buffer (take ?k ?comps)"
    and bl: "all_ok (butlast evs)"
    and res: "case r of Inr _ \<Rightarrow> all_ok evs \<and> ?k = length ?comps
          | Inl err \<Rightarrow>
              if all_ok evs
              then ?k < length ?comps \<and> \<not> fits_buffer (?comps ! ?k)
                   \<and> err = (if 256 < size_comp (?comps ! ?k) + 8
                            then SC_ERROR_BUFFER_TOO_SMALL else UNDEFINED_BEHAVIOUR)
              else snd (last evs) = Inl err"
    by (simp_all add: private_loop_post_def Let_def)
  have fitsD: "\<And>i. i < ?k \<Longrightarrow> fits_buffer (?comps ! i)"
    using fits k by (simp add: list_all_length)
  have c1: "\<exists>k \<le> length ?comps.
       pkload_args evs = map (load_args kf) (take k ?comps)
       \<and> (\<forall>pe \<in> set (take k ?comps).
             length (payload pe) = unat (size_comp pe)
             \<and> length (spec_private_block (payload pe)) = round_up (unat (size_comp pe) + 1) 8)
       \<and> (is_ok r \<longrightarrow> k = length ?comps)"
  proof (intro exI [of _ ?k] conjI ballI impI)
    show "?k \<le> length ?comps" by (rule k)
    show "pkload_args evs = map (load_args kf) (take ?k ?comps)" by (rule args)
    fix pe assume "pe \<in> set (take ?k ?comps)"
    with fits have "fits_buffer pe" by (simp add: list_all_iff)
    then show len: "length (payload pe) = unat (size_comp pe)"
      by (simp add: fits_buffer_def payload_def)
    then show "length (spec_private_block (payload pe)) = round_up (unat (size_comp pe) + 1) 8"
      by (simp add: length_spec_private_block)
  next
    assume "is_ok r"
    with res show "?k = length ?comps" by (cases r) simp_all
  qed
  have c2: "\<forall>j < length ?comps.
         256 < size_comp (?comps ! j) + 8 \<and> (\<forall>i < j. fits_buffer (?comps ! i)) \<and> all_ok evs \<longrightarrow>
         r = Inl SC_ERROR_BUFFER_TOO_SMALL \<and> ?k = j"
  proof (intro allI impI)
    fix j
    assume j: "j < length ?comps"
      and h: "256 < size_comp (?comps ! j) + 8 \<and> (\<forall>i < j. fits_buffer (?comps ! i)) \<and> all_ok evs"
    then have nf: "\<not> fits_buffer (?comps ! j)" by (simp add: fits_buffer_def)
    have "\<not> j < ?k" using nf fitsD by blast
    show "r = Inl SC_ERROR_BUFFER_TOO_SMALL \<and> ?k = j"
    proof (cases r)
      case (Inr v)
      with res have "?k = length ?comps" by simp
      with j \<open>\<not> j < ?k\<close> show ?thesis by simp
    next
      case (Inl err)
      with res h have r': "?k < length ?comps" "\<not> fits_buffer (?comps ! ?k)"
        "err = (if 256 < size_comp (?comps ! ?k) + 8
                            then SC_ERROR_BUFFER_TOO_SMALL else UNDEFINED_BEHAVIOUR)"
        by simp_all
      have "\<not> ?k < j" using h r'(2) by blast
      with \<open>\<not> j < ?k\<close> have "?k = j" by simp
      with r' h Inl show ?thesis by simp
    qed
  qed
  have c4: "\<forall>e. \<not> all_ok evs \<and> snd (last evs) = Inl e \<longrightarrow> r = Inl e"
    using res by (cases r) auto
  have c5: "is_ok r \<longrightarrow> all_ok evs"
    using res by (cases r) auto
  from c1 c2 bl c4 c5 show "(\<exists>k \<le> length (components part).
       pkload_args (new_events c c') = map (load_args kf) (take k (components part))
       \<and> (\<forall>pe \<in> set (take k (components part)).
             length (payload pe) = unat (size_comp pe)
             \<and> length (spec_private_block (payload pe)) = round_up (unat (size_comp pe) + 1) 8)
       \<and> (is_ok r \<longrightarrow> k = length (components part)))
   \<and> (\<forall>j < length (components part).
         256 < size_comp (components part ! j) + 8
         \<and> (\<forall>i < j. fits_buffer (components part ! i))
         \<and> all_ok (new_events c c') \<longrightarrow>
         r = Inl SC_ERROR_BUFFER_TOO_SMALL \<and> length (pkload_args (new_events c c')) = j)
   \<and> all_ok (butlast (new_events c c'))
   \<and> (\<forall>e. \<not> all_ok (new_events c c') \<and> snd (last (new_events c c')) = Inl e \<longrightarrow> r = Inl e)
   \<and> (is_ok r \<longrightarrow> all_ok (new_events c c'))"
    unfolding ne by blast
qed

lemma block_example_1: "spec_private_block [0x0d, 1, 2] = [0x0d, 1, 2, 0xF1, 0, 0, 0, 0]"
  by code_simp

lemma block_example_2:
  "spec_private_block [0x04, 0xAA, 0xBB, 0xCC, 0xDD, 0xEE, 0x11, 0x22] =
     [0x04, 0xAA, 0xBB, 0xCC, 0xDD, 0xEE, 0x11, 0x22, 0x26, 0, 0, 0, 0, 0, 0, 0]"
  by code_simp

lemma private_example_run:
  "gpk_pkfile_update_private profile_example accepting_card key_file_example
     private_part_example =
   (Inr 0, accepting_card\<lparr>log :=
      [(Verify SC_AC_PRO 1 [1, 2, 3, 4, 5, 6, 7, 8], Inr 0),
       (CardCtl_GPK_PKLOAD key_file_example [0x0d, 1, 2, 0xF1, 0, 0, 0, 0] 3 8, Inr 0),
       (Verify SC_AC_PRO 1 [1, 2, 3, 4, 5, 6, 7, 8], Inr 0),
       (CardCtl_GPK_PKLOAD key_file_example
          [0x04, 0xAA, 0xBB, 0xCC, 0xDD, 0xEE, 0x11, 0x22, 0x26, 0, 0, 0, 0, 0, 0, 0] 8 16,
        Inr 0)]\<rparr>)"
  by (simp add: gpk_pkfile_update_private_def profile_example_def private_part_example_def
      loop_fits fits_buffer_def accepting_card_def payload_def block_example_1 block_example_2
      round_up_def del: update_private_loop.simps(2))

lemma too_big_run:
  "gpk_pkfile_update_private profile_example accepting_card key_file_example
     private_part_too_big =
   (Inl SC_ERROR_BUFFER_TOO_SMALL, accepting_card\<lparr>log :=
      [(Verify SC_AC_PRO 1 [1, 2, 3, 4, 5, 6, 7, 8], Inr 0),
       (CardCtl_GPK_PKLOAD key_file_example [0x0d, 1, 2, 0xF1, 0, 0, 0, 0] 3 8, Inr 0)]\<rparr>)"
  by (simp add: gpk_pkfile_update_private_def profile_example_def private_part_too_big_def
      loop_fits loop_too_small fits_buffer_def accepting_card_def payload_def block_example_1
      round_up_def del: update_private_loop.simps(2))

lemma rejected_run:
  "gpk_pkfile_update_private profile_example
     (accepting_card\<lparr>reply := \<lambda>_ ev. if is_pkload ev then Inl (SC_ERROR_OTHER (- 1)) else Inr 0\<rparr>)
     key_file_example private_part_example =
   (Inl (SC_ERROR_OTHER (- 1)),
    accepting_card\<lparr>reply := \<lambda>_ ev. if is_pkload ev then Inl (SC_ERROR_OTHER (- 1)) else Inr 0,
      log :=
      [(Verify SC_AC_PRO 1 [1, 2, 3, 4, 5, 6, 7, 8], Inr 0),
       (CardCtl_GPK_PKLOAD key_file_example [0x0d, 1, 2, 0xF1, 0, 0, 0, 0] 3 8,
        Inl (SC_ERROR_OTHER (- 1)))]\<rparr>)"
  by (simp add: gpk_pkfile_update_private_def profile_example_def private_part_example_def
      loop_fits fits_buffer_def accepting_card_def payload_def block_example_1
      round_up_def del: update_private_loop.simps(2))

theorem gpk_pkfile_update_private_verifies_witness:
  "gpk_pkfile_update_private profile_without_secret accepting_card key_file_example
       private_part_example =
     (Inl SC_ERROR_SECURITY_STATUS_NOT_SATISFIED, accepting_card)
   \<and> (\<exists>c'. gpk_pkfile_update_private profile_example accepting_card key_file_example
               private_part_example = (Inr 0, c')
         \<and> length (pkload_args (log c')) = 2
         \<and> verified_loads [1, 2, 3, 4, 5, 6, 7, 8] False (new_events accepting_card c'))"
  using gpk_pkfile_update_private_verifies [where profile = profile_without_secret
      and err = SC_ERROR_FILE_NOT_FOUND and c = accepting_card and kf = key_file_example
      and part = private_part_example]
    gpk_pkfile_update_private_verifies [where profile = profile_example
      and ?r0.0 = 0 and key = "[1, 2, 3, 4, 5, 6, 7, 8]" and c = accepting_card
      and kf = key_file_example and part = private_part_example and r = "Inr 0"
      and c' = "accepting_card\<lparr>log :=
      [(Verify SC_AC_PRO 1 [1, 2, 3, 4, 5, 6, 7, 8], Inr 0),
       (CardCtl_GPK_PKLOAD key_file_example [0x0d, 1, 2, 0xF1, 0, 0, 0, 0] 3 8, Inr 0),
       (Verify SC_AC_PRO 1 [1, 2, 3, 4, 5, 6, 7, 8], Inr 0),
       (CardCtl_GPK_PKLOAD key_file_example
          [0x04, 0xAA, 0xBB, 0xCC, 0xDD, 0xEE, 0x11, 0x22, 0x26, 0, 0, 0, 0, 0, 0, 0] 8 16,
        Inr 0)]\<rparr>"]
    private_example_run
  by (simp add: profile_without_secret_def profile_example_def)

theorem gpk_pkfile_update_private_blocks_witness:
  "(\<exists>c'. gpk_pkfile_update_private profile_example accepting_card key_file_example
               private_part_too_big = (Inl SC_ERROR_BUFFER_TOO_SMALL, c')
         \<and> pkload_args (new_events accepting_card c')
             = [(key_file_example, [0x0d, 1, 2, 0xF1, 0, 0, 0, 0], 3, 8)])
   \<and> (\<exists>c'. gpk_pkfile_update_private profile_example accepting_card key_file_example
               private_part_example = (Inr 0, c')
         \<and> pkload_args (new_events accepting_card c')
             = [(key_file_example, [0x0d, 1, 2, 0xF1, 0, 0, 0, 0], 3, 8),
                (key_file_example,
                 [0x04, 0xAA, 0xBB, 0xCC, 0xDD, 0xEE, 0x11, 0x22, 0x26, 0, 0, 0, 0, 0, 0, 0], 8, 16)])
   \<and> (\<exists>c'. gpk_pkfile_update_private profile_example
               (accepting_card\<lparr>reply := \<lambda>_ ev. if is_pkload ev
                                                  then Inl (SC_ERROR_OTHER (- 1)) else Inr 0\<rparr>)
               key_file_example private_part_example = (Inl (SC_ERROR_OTHER (- 1)), c')
         \<and> length (log c') = 2)"
proof (intro conjI)
  let ?key = "[1, 2, 3, 4, 5, 6, 7, 8] :: u8 list"
  let ?c1 = "accepting_card\<lparr>log :=
      [(Verify SC_AC_PRO 1 ?key, Inr 0),
       (CardCtl_GPK_PKLOAD key_file_example [0x0d, 1, 2, 0xF1, 0, 0, 0, 0] 3 8, Inr 0)]\<rparr>"
  have hyp: "secret profile_example SC_AC_PRO 1 = Inr (0, ?key)
     \<and> gpk_pkfile_update_private profile_example accepting_card key_file_example
           private_part_too_big = (Inl SC_ERROR_BUFFER_TOO_SMALL, ?c1)"
    using too_big_run by (simp add: profile_example_def)
  have j: "\<forall>j < length (components private_part_too_big).
         256 < size_comp (components private_part_too_big ! j) + 8
         \<and> (\<forall>i < j. fits_buffer (components private_part_too_big ! i))
         \<and> all_ok (new_events accepting_card ?c1) \<longrightarrow>
         (Inl SC_ERROR_BUFFER_TOO_SMALL :: nat result) = Inl SC_ERROR_BUFFER_TOO_SMALL
         \<and> length (pkload_args (new_events accepting_card ?c1)) = j"
    using gpk_pkfile_update_private_blocks [where profile = profile_example
      and ?r0.0 = 0 and key = ?key and c = accepting_card and kf = key_file_example
      and part = private_part_too_big and r = "Inl SC_ERROR_BUFFER_TOO_SMALL" and c' = ?c1]
      hyp
    by blast
  have "256 < size_comp (components private_part_too_big ! 1) + 8
         \<and> (\<forall>i < 1. fits_buffer (components private_part_too_big ! i))
         \<and> all_ok (new_events accepting_card ?c1)"
    by (simp add: private_part_too_big_def fits_buffer_def new_events_def accepting_card_def)
  moreover have "1 < length (components private_part_too_big)"
    by (simp add: private_part_too_big_def)
  ultimately have "length (pkload_args (new_events accepting_card ?c1)) = 1"
    using j by blast
  then show "\<exists>c'. gpk_pkfile_update_private profile_example accepting_card key_file_example
               private_part_too_big = (Inl SC_ERROR_BUFFER_TOO_SMALL, c')
         \<and> pkload_args (new_events accepting_card c')
             = [(key_file_example, [0x0d, 1, 2, 0xF1, 0, 0, 0, 0], 3, 8)]"
    using too_big_run by (simp add: new_events_def accepting_card_def)
next
  let ?key = "[1, 2, 3, 4, 5, 6, 7, 8] :: u8 list"
  let ?c2 = "accepting_card\<lparr>log :=
      [(Verify SC_AC_PRO 1 ?key, Inr 0),
       (CardCtl_GPK_PKLOAD key_file_example [0x0d, 1, 2, 0xF1, 0, 0, 0, 0] 3 8, Inr 0),
       (Verify SC_AC_PRO 1 ?key, Inr 0),
       (CardCtl_GPK_PKLOAD key_file_example
          [0x04, 0xAA, 0xBB, 0xCC, 0xDD, 0xEE, 0x11, 0x22, 0x26, 0, 0, 0, 0, 0, 0, 0] 8 16,
        Inr 0)]\<rparr>"
  have "\<exists>k\<le>length (components private_part_example).
       pkload_args (new_events accepting_card ?c2) =
         map (load_args key_file_example) (take k (components private_part_example))
       \<and> (\<forall>pe \<in> set (take k (components private_part_example)).
             length (payload pe) = unat (size_comp pe)
             \<and> length (spec_private_block (payload pe)) = round_up (unat (size_comp pe) + 1) 8)
       \<and> (is_ok (Inr 0 :: nat result) \<longrightarrow> k = length (components private_part_example))"
    using gpk_pkfile_update_private_blocks [where profile = profile_example
      and ?r0.0 = 0 and key = ?key and c = accepting_card and kf = key_file_example
      and part = private_part_example and r = "Inr 0" and c' = ?c2] private_example_run
    by (simp add: profile_example_def)
  then have "pkload_args (new_events accepting_card ?c2) =
         map (load_args key_file_example) (components private_part_example)"
    by auto
  then show "\<exists>c'. gpk_pkfile_update_private profile_example accepting_card key_file_example
               private_part_example = (Inr 0, c')
         \<and> pkload_args (new_events accepting_card c')
             = [(key_file_example, [0x0d, 1, 2, 0xF1, 0, 0, 0, 0], 3, 8),
                (key_file_example,
                 [0x04, 0xAA, 0xBB, 0xCC, 0xDD, 0xEE, 0x11, 0x22, 0x26, 0, 0, 0, 0, 0, 0, 0], 8, 16)]"
    using private_example_run
    by (simp add: private_part_example_def load_args_def payload_def block_example_1
        block_example_2 round_up_def)
next
  show "\<exists>c'. gpk_pkfile_update_private profile_example
               (accepting_card\<lparr>reply := \<lambda>_ ev. if is_pkload ev
                                                  then Inl (SC_ERROR_OTHER (- 1)) else Inr 0\<rparr>)
               key_file_example private_part_example = (Inl (SC_ERROR_OTHER (- 1)), c')
         \<and> length (log c') = 2"
    using rejected_run by simp
qed

subsection \<open>Storing a PIN\<close>

text \<open>
  C10: let the profile define the PIN file, the selection of its DF succeed and the
  scaled index \<^verbatim>\<open>index << 2\<close> be below \<^verbatim>\<open>GPK_MAX_PINS\<close>.  When the caller gives no PUK
  (a NULL pointer or the length 0) and the change of the PIN slot succeeds,
  \<^verbatim>\<open>gpk_new_pin\<close> changes the slot \<open>0x8 | index\<close> and then the slot \<open>0x8 | (index + 1)\<close>, both
  from the eight zero bytes to the PIN value and length, and stores the reference
  \<open>0x8 | index\<close>; its result is that of the second change.
\<close>

theorem gpk_new_pin_default_puk:
  "pinfile_path profile = Some pp
     \<and> select_reply c (log c) (if 2 < length pp then take (length pp - 2) pp else pp) = Inr found
     \<and> push_bit 2 index < (8 :: u32)
     \<and> (puk = None \<or> puk_len = 0)
     \<and> reply c (log c @ [(SelectFile (if 2 < length pp then take (length pp - 2) pp else pp), Inr 0)])
          (ChangeReferenceData SC_AC_CHV (0x8 OR push_bit 2 index) (replicate 8 0) pin pin_len)
        = Inr v
     \<and> reply c (log c @ [(SelectFile (if 2 < length pp then take (length pp - 2) pp else pp), Inr 0),
            (ChangeReferenceData SC_AC_CHV (0x8 OR push_bit 2 index) (replicate 8 0) pin pin_len,
             Inr v)])
          (ChangeReferenceData SC_AC_CHV (0x8 OR (push_bit 2 index + 1)) (replicate 8 0)
             pin pin_len)
        = r \<longrightarrow>
   gpk_new_pin profile c info index pin pin_len puk puk_len =
     (r, info\<lparr>pin_path := (if 2 < length pp then take (length pp - 2) pp else pp),
               reference := 0x8 OR push_bit 2 index\<rparr>,
      c\<lparr>log := log c @
          [(SelectFile (if 2 < length pp then take (length pp - 2) pp else pp), Inr 0),
           (ChangeReferenceData SC_AC_CHV (0x8 OR push_bit 2 index) (replicate 8 0) pin pin_len,
            Inr v),
           (ChangeReferenceData SC_AC_CHV (0x8 OR (push_bit 2 index + 1)) (replicate 8 0)
              pin pin_len, r)]\<rparr>)"
  by (auto simp: gpk_new_pin_def sc_select_file_def sc_change_reference_data_def card_op_def
      GPK_MAX_PINS_def Let_def not_le)

theorem gpk_new_pin_default_puk_witness:
  "(\<exists>c'. gpk_new_pin profile_example accepting_card \<lparr>pin_path = [], reference = 0\<rparr> 1
            (Some [0x31, 0x32, 0x33, 0x34]) 4 None 0 =
          (Inr 0, \<lparr>pin_path = [0x3F, 0x00, 0x50, 0x15], reference = 0xC\<rparr>, c')
      \<and> map fst (log c') =
          [SelectFile [0x3F, 0x00, 0x50, 0x15],
           ChangeReferenceData SC_AC_CHV 0xC [0, 0, 0, 0, 0, 0, 0, 0] (Some [0x31, 0x32, 0x33, 0x34]) 4,
           ChangeReferenceData SC_AC_CHV 0xD [0, 0, 0, 0, 0, 0, 0, 0] (Some [0x31, 0x32, 0x33, 0x34]) 4])
   \<and> (\<exists>c'. gpk_new_pin profile_example accepting_card \<lparr>pin_path = [], reference = 0\<rparr> 0
            (Some [0x31, 0x32, 0x33, 0x34]) 4 (Some [0x39]) 0 =
          (Inr 0, \<lparr>pin_path = [0x3F, 0x00, 0x50, 0x15], reference = 0x8\<rparr>, c')
      \<and> map fst (log c') =
          [SelectFile [0x3F, 0x00, 0x50, 0x15],
           ChangeReferenceData SC_AC_CHV 0x8 [0, 0, 0, 0, 0, 0, 0, 0] (Some [0x31, 0x32, 0x33, 0x34]) 4,
           ChangeReferenceData SC_AC_CHV 0x9 [0, 0, 0, 0, 0, 0, 0, 0] (Some [0x31, 0x32, 0x33, 0x34]) 4])"
proof -
  have r8: "replicate 8 (0 :: u8) = [0, 0, 0, 0, 0, 0, 0, 0]"
    by (simp add: numeral_eq_Suc)
  show ?thesis
    using gpk_new_pin_default_puk [where profile = profile_example and c = accepting_card
        and pp = "[0x3F, 0x00, 0x50, 0x15, 0x00, 0x00]" and index = 1
        and found = "key_file_example\<lparr>path := [0x3F, 0x00, 0x50, 0x15]\<rparr>"
        and puk = None and puk_len = 0 and pin = "Some [0x31, 0x32, 0x33, 0x34]" and pin_len = 4
        and v = 0 and r = "Inr 0" and info = "\<lparr>pin_path = [], reference = 0\<rparr>"]
      gpk_new_pin_default_puk [where profile = profile_example and c = accepting_card
        and pp = "[0x3F, 0x00, 0x50, 0x15, 0x00, 0x00]" and index = 0
        and found = "key_file_example\<lparr>path := [0x3F, 0x00, 0x50, 0x15]\<rparr>"
        and puk = "Some [0x39]" and puk_len = 0 and pin = "Some [0x31, 0x32, 0x33, 0x34]"
        and pin_len = 4 and v = 0 and r = "Inr 0"
        and info = "\<lparr>pin_path = [], reference = 0\<rparr>"]
    by (auto simp: profile_example_def accepting_card_def r8)
qed

end
